theory Spec2Isabelle
  imports Main "HOL-Library.AList"
begin

unbundle bit_operations_syntax

section \<open>Python primitives used by \<^verbatim>\<open>hashed_bin_delegation.py\<close>\<close>

text \<open>
  The exceptions that the built-in operations of the example can raise. The example
  defines no exception class of its own.
\<close>

datatype error =
  ZeroDivisionError | ValueError | UnicodeEncodeError | KeyError | AttributeError

text \<open>Python's \<^verbatim>\<open>//\<close> and \<^verbatim>\<open>%\<close> on ints round towards minus infinity, as
  \<open>div\<close> and \<open>mod\<close> on \<open>int\<close> do, and raise on a zero divisor.\<close>

definition py_floordiv :: "int \<Rightarrow> int \<Rightarrow> error + int" where
  "py_floordiv a b = (if b = 0 then Inl ZeroDivisionError else Inr (a div b))"

definition py_mod :: "int \<Rightarrow> int \<Rightarrow> error + int" where
  "py_mod a b = (if b = 0 then Inl ZeroDivisionError else Inr (a mod b))"

text \<open>Lower-case hexadecimal digits, as the format type \<^verbatim>\<open>x\<close> prints them.\<close>

definition hex_digit :: "nat \<Rightarrow> char" where
  "hex_digit d = ''0123456789abcdef'' ! (d mod 16)"

fun hex_nat :: "nat \<Rightarrow> string" where
  "hex_nat n = (if n < 16 then [hex_digit n] else hex_nat (n div 16) @ [hex_digit (n mod 16)])"

declare hex_nat.simps [simp del]

text \<open>\<^verbatim>\<open>f"{n:x}"\<close>: the digits of the magnitude, after a minus sign for a negative
  number.\<close>

definition py_hex :: "int \<Rightarrow> string" where
  "py_hex n = (if n < 0 then CHR ''-'' # hex_nat (nat (- n)) else hex_nat (nat n))"

text \<open>\<^verbatim>\<open>f"{n:0{w}x}"\<close>: the same digits, filled with zeros up to the width \<open>w\<close>; the
  zeros go between the sign and the digits, and a number wider than \<open>w\<close> is not cut.\<close>

definition py_hex_pad :: "nat \<Rightarrow> int \<Rightarrow> string" where
  "py_hex_pad w n =
     (let ds = hex_nat (nat \<bar>n\<bar>) in
      if n < 0 then CHR ''-'' # replicate (w - 1 - length ds) CHR ''0'' @ ds
      else replicate (w - length ds) CHR ''0'' @ ds)"

text \<open>\<^verbatim>\<open>range(start, stop, step)\<close>: its length as CPython computes it, its elements,
  and the \<^verbatim>\<open>ValueError\<close> for a zero step.\<close>

definition range_len :: "int \<Rightarrow> int \<Rightarrow> int \<Rightarrow> nat" where
  "range_len start stop step =
     (if 0 < step \<and> start < stop then nat ((stop - start - 1) div step + 1)
      else if step < 0 \<and> stop < start then nat ((start - stop - 1) div (- step) + 1)
      else 0)"

definition range_list :: "int \<Rightarrow> int \<Rightarrow> int \<Rightarrow> int list" where
  "range_list start stop step =
     map (\<lambda>i. start + int i * step) [0..<range_len start stop step]"

definition py_range :: "int \<Rightarrow> int \<Rightarrow> int \<Rightarrow> error + int list" where
  "py_range start stop step =
     (if step = 0 then Inl ValueError else Inr (range_list start stop step))"

section \<open>The derived constants (lines 69--82)\<close>

text \<open>
  The module fixes \<^verbatim>\<open>NUMBER_OF_BINS = 32\<close> and derives the other three constants from it
  when it is loaded. The bin count is the one configured number, so the model takes it as
  the argument \<open>n\<close> of \<open>load_constants\<close>; the division of line 82 is the only
  statement of this part that can raise.
\<close>

record constants =
  NUMBER_OF_BINS :: int
  PREFIX_LEN :: nat
  NUMBER_OF_PREFIXES :: int
  BIN_SIZE :: int

definition load_constants :: "int \<Rightarrow> error + constants" where
  "load_constants n =
     (let prefix_len = length (py_hex (n - 1));
          number_of_prefixes = 16 ^ prefix_len
      in case py_floordiv number_of_prefixes n of
           Inl e \<Rightarrow> Inl e
         | Inr bin_size \<Rightarrow>
             Inr \<lparr>NUMBER_OF_BINS = n, PREFIX_LEN = prefix_len,
                  NUMBER_OF_PREFIXES = number_of_prefixes, BIN_SIZE = bin_size\<rparr>)"

section \<open>The hash bin helpers (lines 87--126)\<close>

text \<open>\<^verbatim>\<open>_bin_name\<close> (an Isabelle name cannot start with an underscore).\<close>

definition bin_name :: "constants \<Rightarrow> int \<Rightarrow> int \<Rightarrow> string" where
  "bin_name c low high =
     (if low = high then py_hex_pad (PREFIX_LEN c) low
      else py_hex_pad (PREFIX_LEN c) low @ ''-'' @ py_hex_pad (PREFIX_LEN c) high)"

text \<open>One iteration of the loop of \<^verbatim>\<open>generate_hash_bins\<close> (lines 105--111): the pair
  that is yielded for \<open>low\<close>.\<close>

definition hash_bin :: "constants \<Rightarrow> int \<Rightarrow> string \<times> string list" where
  "hash_bin c low =
     (let high = low + BIN_SIZE c - 1;
          name = bin_name c low high;
          hash_prefixes = map (py_hex_pad (PREFIX_LEN c)) (range_list low (low + BIN_SIZE c) 1)
      in (name, hash_prefixes))"

text \<open>The generator is consumed to its end wherever the example uses it, so the model
  returns the list of everything it yields.\<close>

definition generate_hash_bins :: "constants \<Rightarrow> error + (string \<times> string list) list" where
  "generate_hash_bins c =
     (case py_range 0 (NUMBER_OF_PREFIXES c) (BIN_SIZE c) of
        Inl e \<Rightarrow> Inl e
      | Inr lows \<Rightarrow> Inr (map (hash_bin c) lows))"

text \<open>The values of the local variables \<^verbatim>\<open>low\<close> and \<^verbatim>\<open>high\<close> (lines 104--105) in the
  successive iterations of the same loop: the prefix range of each bin.\<close>

definition hash_bin_ranges :: "constants \<Rightarrow> error + (int \<times> int) list" where
  "hash_bin_ranges c =
     (case py_range 0 (NUMBER_OF_PREFIXES c) (BIN_SIZE c) of
        Inl e \<Rightarrow> Inl e
      | Inr lows \<Rightarrow> Inr (map (\<lambda>low. (low, low + BIN_SIZE c - 1)) lows))"

section \<open>Strings, UTF-8 and SHA-256 (\<^verbatim>\<open>str.encode\<close>, \<^verbatim>\<open>hashlib.sha256\<close>, \<^verbatim>\<open>int(s, 16)\<close>)\<close>

text \<open>
  A Python \<^verbatim>\<open>str\<close> is a sequence of code points, \<open>0\<close> to \<open>0x10FFFF\<close>, the surrogates
  \<open>0xD800\<close> to \<open>0xDFFF\<close> included; a target path is modelled as the list of its code
  points. Bin and role names, which the example builds from hexadecimal digits, are
  \<open>string\<close>s. \<open>str_of\<close> gives the code points of an ASCII literal.
\<close>

type_synonym pystr = "nat list"

definition str_of :: "string \<Rightarrow> pystr" where
  "str_of s = map of_char s"

definition is_surrogate :: "nat \<Rightarrow> bool" where
  "is_surrogate cp = (55296 \<le> cp \<and> cp \<le> 57343)"

text \<open>\<^verbatim>\<open>path.encode("utf-8")\<close> with the default error handler \<^verbatim>\<open>strict\<close>: one to four
  bytes for each code point, and \<^verbatim>\<open>UnicodeEncodeError\<close> for a surrogate.\<close>

definition utf8_encode_char :: "nat \<Rightarrow> error + nat list" where
  "utf8_encode_char cp =
     (if cp < 128 then Inr [cp]
      else if cp < 2048 then Inr [192 + cp div 64, 128 + cp mod 64]
      else if is_surrogate cp then Inl UnicodeEncodeError
      else if cp < 65536 then
        Inr [224 + cp div 4096, 128 + cp div 64 mod 64, 128 + cp mod 64]
      else
        Inr [240 + cp div 262144 mod 8, 128 + cp div 4096 mod 64,
             128 + cp div 64 mod 64, 128 + cp mod 64])"

fun encode_utf8 :: "pystr \<Rightarrow> error + nat list" where
  "encode_utf8 [] = Inr []"
| "encode_utf8 (cp # cps) =
     (case utf8_encode_char cp of
        Inl e \<Rightarrow> Inl e
      | Inr bs \<Rightarrow>
          (case encode_utf8 cps of
             Inl e \<Rightarrow> Inl e
           | Inr rest \<Rightarrow> Inr (bs @ rest)))"

text \<open>
  \<^verbatim>\<open>hashlib.sha256\<close> is SHA-256 of FIPS 180-4. Its 32-bit words are natural numbers
  below \<open>2 ^ 32\<close>, with the wrap-around of each addition written out; bytes are natural
  numbers below 256.
\<close>

definition add32 :: "nat \<Rightarrow> nat \<Rightarrow> nat" where
  "add32 x y = (x + y) mod 4294967296"

definition rotr32 :: "nat \<Rightarrow> nat \<Rightarrow> nat" where
  "rotr32 r x = x div 2 ^ r + (x mod 2 ^ r) * 2 ^ (32 - r)"

definition shr32 :: "nat \<Rightarrow> nat \<Rightarrow> nat" where
  "shr32 r x = x div 2 ^ r"

definition not32 :: "nat \<Rightarrow> nat" where
  "not32 x = 4294967295 - x mod 4294967296"

definition ch :: "nat \<Rightarrow> nat \<Rightarrow> nat \<Rightarrow> nat" where
  "ch x y z = (x AND y) XOR (not32 x AND z)"

definition maj :: "nat \<Rightarrow> nat \<Rightarrow> nat \<Rightarrow> nat" where
  "maj x y z = (x AND y) XOR (x AND z) XOR (y AND z)"

definition big_sigma0 :: "nat \<Rightarrow> nat" where
  "big_sigma0 x = rotr32 2 x XOR rotr32 13 x XOR rotr32 22 x"

definition big_sigma1 :: "nat \<Rightarrow> nat" where
  "big_sigma1 x = rotr32 6 x XOR rotr32 11 x XOR rotr32 25 x"

definition small_sigma0 :: "nat \<Rightarrow> nat" where
  "small_sigma0 x = rotr32 7 x XOR rotr32 18 x XOR shr32 3 x"

definition small_sigma1 :: "nat \<Rightarrow> nat" where
  "small_sigma1 x = rotr32 17 x XOR rotr32 19 x XOR shr32 10 x"

text \<open>The round constants and the initial hash value: the first 32 bits of the
  fractional parts of the cube roots of the first 64 primes, and of the square roots of
  the first 8.\<close>

definition sha256_k :: "nat list" where
  "sha256_k = [
      1116352408, 1899447441, 3049323471, 3921009573, 961987163, 1508970993,
      2453635748, 2870763221, 3624381080, 310598401, 607225278, 1426881987,
      1925078388, 2162078206, 2614888103, 3248222580, 3835390401, 4022224774,
      264347078, 604807628, 770255983, 1249150122, 1555081692, 1996064986,
      2554220882, 2821834349, 2952996808, 3210313671, 3336571891, 3584528711,
      113926993, 338241895, 666307205, 773529912, 1294757372, 1396182291,
      1695183700, 1986661051, 2177026350, 2456956037, 2730485921, 2820302411,
      3259730800, 3345764771, 3516065817, 3600352804, 4094571909, 275423344,
      430227734, 506948616, 659060556, 883997877, 958139571, 1322822218,
      1537002063, 1747873779, 1955562222, 2024104815, 2227730452, 2361852424,
      2428436474, 2756734187, 3204031479, 3329325298]"

type_synonym sha_state = "nat \<times> nat \<times> nat \<times> nat \<times> nat \<times> nat \<times> nat \<times> nat"

definition sha256_init :: sha_state where
  "sha256_init = (1779033703, 3144134277, 1013904242, 2773480762,
                  1359893119, 2600822924, 528734635, 1541459225)"

fun sha_round :: "nat \<Rightarrow> nat \<Rightarrow> sha_state \<Rightarrow> sha_state" where
  "sha_round k w (a, b, c, d, e, f, g, h) =
     (let t1 = add32 (add32 (add32 (add32 h (big_sigma1 e)) (ch e f g)) k) w;
          t2 = add32 (big_sigma0 a) (maj a b c)
      in (add32 t1 t2, a, b, c, add32 d t1, e, f, g))"

text \<open>The message schedule is kept as a window of sixteen words: the head is the word
  of the current round, and each round appends the word sixteen rounds ahead.\<close>

definition next_word :: "nat list \<Rightarrow> nat" where
  "next_word w =
     add32 (add32 (add32 (small_sigma1 (w ! 14)) (w ! 9)) (small_sigma0 (w ! 1))) (w ! 0)"

fun sha_rounds :: "nat list \<Rightarrow> nat list \<Rightarrow> sha_state \<Rightarrow> sha_state" where
  "sha_rounds [] w s = s"
| "sha_rounds (k # ks) w s = sha_rounds ks (tl w @ [next_word w]) (sha_round k (hd w) s)"

fun add_state :: "sha_state \<Rightarrow> sha_state \<Rightarrow> sha_state" where
  "add_state (a, b, c, d, e, f, g, h) (a', b', c', d', e', f', g', h') =
     (add32 a a', add32 b b', add32 c c', add32 d d',
      add32 e e', add32 f f', add32 g g', add32 h h')"

definition be32 :: "nat list \<Rightarrow> nat" where
  "be32 bs = ((bs ! 0 * 256 + bs ! 1) * 256 + bs ! 2) * 256 + bs ! 3"

definition block_words :: "nat list \<Rightarrow> nat list" where
  "block_words block = map (\<lambda>i. be32 (take 4 (drop (4 * i) block))) [0..<16]"

definition sha_block :: "nat list \<Rightarrow> sha_state \<Rightarrow> sha_state" where
  "sha_block block s = add_state s (sha_rounds sha256_k (block_words block) s)"

text \<open>Padding: the byte \<open>0x80\<close>, zero bytes up to 56 modulo 64, and the length of the
  message in bits as eight big-endian bytes.\<close>

definition sha_pad :: "nat list \<Rightarrow> nat list" where
  "sha_pad msg =
     msg @ [128] @ replicate ((119 - length msg mod 64) mod 64) 0
       @ map (\<lambda>i. (8 * length msg) div 256 ^ (7 - i) mod 256) [0..<8]"

definition sha_blocks :: "nat list \<Rightarrow> nat list list" where
  "sha_blocks bs = map (\<lambda>i. take 64 (drop (64 * i) bs)) [0..<length bs div 64]"

definition sha256 :: "nat list \<Rightarrow> sha_state" where
  "sha256 msg = fold sha_block (sha_blocks (sha_pad msg)) sha256_init"

definition hex8 :: "nat \<Rightarrow> string" where
  "hex8 w = map (\<lambda>i. hex_digit (w div 16 ^ (7 - i) mod 16)) [0..<8]"

fun state_hex :: "sha_state \<Rightarrow> string" where
  "state_hex (a, b, c, d, e, f, g, h) =
     hex8 a @ hex8 b @ hex8 c @ hex8 d @ hex8 e @ hex8 f @ hex8 g @ hex8 h"

text \<open>\<^verbatim>\<open>hasher.update(data); hasher.hexdigest()\<close> on a fresh hasher.\<close>

definition sha256_hexdigest :: "nat list \<Rightarrow> string" where
  "sha256_hexdigest msg = state_hex (sha256 msg)"

text \<open>
  \<^verbatim>\<open>int(s, 16)\<close> on a string of hexadecimal digits, and \<^verbatim>\<open>ValueError\<close> on the empty
  string or on any other character. (Python also accepts a sign, a \<^verbatim>\<open>0x\<close> prefix,
  underscores and surrounding white space; the example only passes a slice of a
  hexadecimal digest, in which none of them occurs.)
\<close>

definition hex_value :: "char \<Rightarrow> nat option" where
  "hex_value c =
     (let n = of_char c :: nat in
      if 48 \<le> n \<and> n \<le> 57 then Some (n - 48)
      else if 97 \<le> n \<and> n \<le> 102 then Some (n - 87)
      else if 65 \<le> n \<and> n \<le> 70 then Some (n - 55)
      else None)"

fun int_digits :: "nat \<Rightarrow> string \<Rightarrow> error + nat" where
  "int_digits acc [] = Inr acc"
| "int_digits acc (c # cs) =
     (case hex_value c of
        None \<Rightarrow> Inl ValueError
      | Some d \<Rightarrow> int_digits (16 * acc + d) cs)"

definition py_int16 :: "string \<Rightarrow> error + int" where
  "py_int16 s =
     (if s = [] then Inl ValueError
      else case int_digits 0 s of Inl e \<Rightarrow> Inl e | Inr v \<Rightarrow> Inr (int v))"

text \<open>\<^verbatim>\<open>find_hash_bin\<close> (lines 114--126). The slice \<^verbatim>\<open>target_name_hash[:PREFIX_LEN]\<close> is
  \<open>take\<close>: it is shorter than \<^verbatim>\<open>PREFIX_LEN\<close> when the digest is.\<close>

definition find_hash_bin :: "constants \<Rightarrow> pystr \<Rightarrow> error + string" where
  "find_hash_bin c path =
     (case encode_utf8 path of
        Inl e \<Rightarrow> Inl e
      | Inr data \<Rightarrow>
          (let target_name_hash = sha256_hexdigest data in
           case py_int16 (take (PREFIX_LEN c) target_name_hash) of
             Inl e \<Rightarrow> Inl e
           | Inr prefix \<Rightarrow>
               (case py_mod prefix (BIN_SIZE c) of
                  Inl e \<Rightarrow> Inl e
                | Inr r \<Rightarrow>
                    (let low = prefix - r;
                         high = low + BIN_SIZE c - 1
                     in Inr (bin_name c low high)))))"

section \<open>Keys, metadata and the example script (lines 140--234)\<close>

text \<open>
  The metadata classes of \<^verbatim>\<open>tuf.api.metadata\<close> are records holding the attributes that
  the example sets; a dictionary is an association list in insertion order, with
  \<open>AList.update\<close> for an item assignment (the value is replaced in place when the key
  is present, and appended otherwise) and \<open>map_of\<close> for a lookup. The example gives
  every document a dictionary of its own (the literals \<^verbatim>\<open>{}\<close> and \<^verbatim>\<open>OrderedDict()\<close> are
  evaluated once for each document), so no two documents share a mutable object and
  documents are plain values.
\<close>

text \<open>A key pair as \<^verbatim>\<open>generate_ed25519_key()\<close> returns it.\<close>

record sslib_key =
  keyid :: string
  keyval_public :: string
  keyval_private :: string

text \<open>\<^verbatim>\<open>Key\<close>: the public part, as it is stored in a delegations record.\<close>

record Key =
  key_keyid :: string
  key_public :: string

definition from_securesystemslib_key :: "sslib_key \<Rightarrow> Key" where
  "from_securesystemslib_key k = \<lparr>key_keyid = keyid k, key_public = keyval_public k\<rparr>"

record TargetFile =
  tf_length :: int
  tf_hashes :: "(string \<times> string) list"
  tf_path :: pystr

record DelegatedRole =
  name :: string
  keyids :: "string list"
  threshold :: int
  terminating :: bool
  path_hash_prefixes :: "string list"

record Delegations =
  keys :: "(string \<times> Key) list"
  roles :: "(string \<times> DelegatedRole) list"

text \<open>\<^verbatim>\<open>Targets\<close>; \<open>expires\<close> is a time in seconds.\<close>

record Targets =
  version :: int
  spec_version :: string
  expires :: int
  targets :: "(pystr \<times> TargetFile) list"
  delegations :: "Delegations option"

text \<open>A signature names the key id, and records symbolically which key signed which
  signed part (the canonical encoding of a signed part determines it).\<close>

record Signature =
  sig_keyid :: string
  sig_signer :: sslib_key
  sig_signed :: Targets

record Metadata =
  signed :: Targets
  signatures :: "(string \<times> Signature) list"

text \<open>
  Modelled from the spec: \<^verbatim>\<open>Metadata.sign\<close> of \<^verbatim>\<open>tuf.api.metadata\<close>, which is not part
  of the sources at hand. The spec: it ``produces a signature over its canonical encoding
  using the [...] signing key and attaches it''. The signature is attached to the
  document's signature mapping under its key id. A failure of the signer is not
  modelled: the example signs with the keys it has generated.
\<close>

definition sign :: "sslib_key \<Rightarrow> Metadata \<Rightarrow> Metadata" where
  "sign k role =
     role\<lparr>signatures :=
       AList.update (keyid k)
         \<lparr>sig_keyid = keyid k, sig_signer = k, sig_signed = signed role\<rparr>
         (signatures role)\<rparr>"

text \<open>
  What the script takes from its environment: the two keys that lines 140--141 generate
  (\<^verbatim>\<open>keys["bin-n"]\<close> and \<^verbatim>\<open>keys["bins"]\<close>), the current time, and the path and the file
  info of the target file (lines 203--205).
\<close>

record env =
  key_bin_n :: sslib_key
  key_bins :: sslib_key
  now :: int
  target_path :: pystr
  target_file_info :: TargetFile

definition SPEC_VERSION :: string where
  "SPEC_VERSION = ''1.0.19''"

text \<open>\<^verbatim>\<open>_in(days)\<close>, from the current time.\<close>

definition in_days :: "int \<Rightarrow> int \<Rightarrow> int" where
  "in_days t days = t + days * 86400"

text \<open>The delegating role \<^verbatim>\<open>bins\<close> as lines 151--167 create it.\<close>

definition bins_role :: "env \<Rightarrow> Metadata" where
  "bins_role ev =
     \<lparr>signed =
        \<lparr>version = 1, spec_version = SPEC_VERSION, expires = in_days (now ev) 365,
         targets = [],
         delegations =
           Some \<lparr>keys = [(keyid (key_bin_n ev), from_securesystemslib_key (key_bin_n ev))],
                 roles = []\<rparr>\<rparr>,
      signatures = []\<rparr>"

text \<open>A delegated role \<^verbatim>\<open>bin_n\<close> as lines 189--194 create it.\<close>

definition bin_n_role :: "env \<Rightarrow> Metadata" where
  "bin_n_role ev =
     \<lparr>signed =
        \<lparr>version = 1, spec_version = SPEC_VERSION, expires = in_days (now ev) 7,
         targets = [], delegations = None\<rparr>,
      signatures = []\<rparr>"

text \<open>The body of the loop of lines 177--194, on the dictionary \<^verbatim>\<open>roles\<close> (here \<open>rd\<close>).
  A missing \<^verbatim>\<open>roles["bins"]\<close> is a \<^verbatim>\<open>KeyError\<close>, and a role \<^verbatim>\<open>bins\<close> without
  delegations an \<^verbatim>\<open>AttributeError\<close>.\<close>

definition delegate_bin ::
  "env \<Rightarrow> (string \<times> Metadata) list \<Rightarrow> string \<times> string list
     \<Rightarrow> error + (string \<times> Metadata) list" where
  "delegate_bin ev rd b =
     (case b of (bin_n_name, bin_n_hash_prefixes) \<Rightarrow>
        (case map_of rd ''bins'' of
           None \<Rightarrow> Inl KeyError
         | Some bins \<Rightarrow>
             (case delegations (signed bins) of
                None \<Rightarrow> Inl AttributeError
              | Some d \<Rightarrow>
                  (let role = \<lparr>name = bin_n_name, keyids = [keyid (key_bin_n ev)],
                               threshold = 1, terminating = False,
                               path_hash_prefixes = bin_n_hash_prefixes\<rparr>;
                       d' = d\<lparr>roles := AList.update bin_n_name role (roles d)\<rparr>;
                       bins' = bins\<lparr>signed := (signed bins)\<lparr>delegations := Some d'\<rparr>\<rparr>;
                       rd' = AList.update ''bins'' bins' rd
                   in Inr (AList.update bin_n_name (bin_n_role ev) rd')))))"

fun delegate_bins ::
  "env \<Rightarrow> (string \<times> Metadata) list \<Rightarrow> (string \<times> string list) list
     \<Rightarrow> error + (string \<times> Metadata) list" where
  "delegate_bins ev rd [] = Inr rd"
| "delegate_bins ev rd (b # bs) =
     (case delegate_bin ev rd b of
        Inl e \<Rightarrow> Inl e
      | Inr rd' \<Rightarrow> delegate_bins ev rd' bs)"

text \<open>Lines 213--214:
  \<^verbatim>\<open>roles[find_hash_bin(target_path)].signed.targets[target_path] = target_file_info\<close>.\<close>

definition add_target ::
  "constants \<Rightarrow> (string \<times> Metadata) list \<Rightarrow> pystr \<Rightarrow> TargetFile
     \<Rightarrow> error + (string \<times> Metadata) list" where
  "add_target c rd path info =
     (case find_hash_bin c path of
        Inl e \<Rightarrow> Inl e
      | Inr bin_for_target \<Rightarrow>
          (case map_of rd bin_for_target of
             None \<Rightarrow> Inl KeyError
           | Some role \<Rightarrow>
               Inr (AList.update bin_for_target
                      (role\<lparr>signed := (signed role)
                         \<lparr>targets := AList.update path info (targets (signed role))\<rparr>\<rparr>)
                      rd)))"

text \<open>The loop of lines 227--234: every role is signed, with \<^verbatim>\<open>keys["bins"]\<close> when its
  name is \<^verbatim>\<open>bins\<close> and with \<^verbatim>\<open>keys["bin-n"]\<close> otherwise, and written to the file
  \<^verbatim>\<open><role_name>.json\<close>. The result is the dictionary after the loop and the files
  written.\<close>

definition sign_role :: "env \<Rightarrow> string \<Rightarrow> Metadata \<Rightarrow> Metadata" where
  "sign_role ev role_name role =
     sign (if role_name = ''bins'' then key_bins ev else key_bin_n ev) role"

definition sign_and_persist ::
  "env \<Rightarrow> (string \<times> Metadata) list
     \<Rightarrow> (string \<times> Metadata) list \<times> (string \<times> Metadata) list" where
  "sign_and_persist ev rd =
     (let rd' = map (\<lambda>(role_name, role). (role_name, sign_role ev role_name role)) rd
      in (rd', map (\<lambda>(role_name, role). (role_name @ ''.json'', role)) rd'))"

text \<open>The part of the script that builds the delegation graph (lines 69--194), and the
  whole script, for the bin count \<open>n\<close>.\<close>

definition build_delegation :: "env \<Rightarrow> constants \<Rightarrow> error + (string \<times> Metadata) list" where
  "build_delegation ev c =
     (case generate_hash_bins c of
        Inl e \<Rightarrow> Inl e
      | Inr bins \<Rightarrow> delegate_bins ev [(''bins'', bins_role ev)] bins)"

definition hashed_bin_delegation ::
  "env \<Rightarrow> int \<Rightarrow> error + (string \<times> Metadata) list \<times> (string \<times> Metadata) list" where
  "hashed_bin_delegation ev n =
     (case load_constants n of
        Inl e \<Rightarrow> Inl e
      | Inr c \<Rightarrow>
          (case build_delegation ev c of
             Inl e \<Rightarrow> Inl e
           | Inr rd \<Rightarrow>
               (case add_target c rd (target_path ev) (target_file_info ev) of
                  Inl e \<Rightarrow> Inl e
                | Inr rd' \<Rightarrow> Inr (sign_and_persist ev rd'))))"

text \<open>A sample environment, used where a theorem below is instantiated: two keys, a
  time, and the target path and file info of the example.\<close>

definition sample_env :: env where
  "sample_env =
     \<lparr>key_bin_n = \<lparr>keyid = ''4e1d'', keyval_public = ''bin-n-public'',
                    keyval_private = ''bin-n-private''\<rparr>,
      key_bins = \<lparr>keyid = ''a7c2'', keyval_public = ''bins-public'',
                   keyval_private = ''bins-private''\<rparr>,
      now = 1600000000,
      target_path = str_of ''repo_example/hashed_bin_delegation.py'',
      target_file_info =
        \<lparr>tf_length = 8618, tf_hashes = [(''sha256'', ''0b5e'')],
         tf_path = str_of ''repo_example/hashed_bin_delegation.py''\<rparr>\<rparr>"

section \<open>Evaluation of the constants\<close>

lemma hex_nat_small: "n < 16 \<Longrightarrow> hex_nat n = [hex_digit n]"
  by (simp add: hex_nat.simps)

lemma load_constants_1:
  "load_constants 1 =
     Inr \<lparr>NUMBER_OF_BINS = 1, PREFIX_LEN = 1, NUMBER_OF_PREFIXES = 16, BIN_SIZE = 16\<rparr>"
  by (simp add: load_constants_def py_hex_def py_floordiv_def hex_nat_small)

section \<open>A single bin\<close>

text \<open>
  Claim C9. For a bin count of 1 the constants are: prefix length 1, 16 prefixes, bin
  size 16; and \<^verbatim>\<open>generate_hash_bins\<close> yields exactly one bin, named \<^verbatim>\<open>0-f\<close>, whose
  range is \<open>[0, 15]\<close> and whose prefixes are the sixteen one-digit prefixes, \<^verbatim>\<open>0\<close> to \<^verbatim>\<open>f\<close>. The one
  digit is what \<^verbatim>\<open>len(f"{0:x}")\<close> gives.
\<close>

theorem single_bin_degenerate:
  "load_constants 1 =
     Inr \<lparr>NUMBER_OF_BINS = 1, PREFIX_LEN = 1, NUMBER_OF_PREFIXES = 16, BIN_SIZE = 16\<rparr>
   \<and> hash_bin_ranges
        \<lparr>NUMBER_OF_BINS = 1, PREFIX_LEN = 1, NUMBER_OF_PREFIXES = 16, BIN_SIZE = 16\<rparr>
       = Inr [(0, 15)]
   \<and> generate_hash_bins
        \<lparr>NUMBER_OF_BINS = 1, PREFIX_LEN = 1, NUMBER_OF_PREFIXES = 16, BIN_SIZE = 16\<rparr>
       = Inr [(''0-f'', map (\<lambda>digit. [digit]) ''0123456789abcdef'')]"
  by (simp add: load_constants_1 hash_bin_ranges_def generate_hash_bins_def py_range_def
      range_list_def range_len_def hash_bin_def bin_name_def py_hex_pad_def hex_nat_small
      hex_digit_def upt_conv_Cons)

section \<open>Hexadecimal digits, ranges and the constants of a power of two\<close>

lemma hex_nat_nonempty: "hex_nat m \<noteq> []"
  by (subst hex_nat.simps) simp

lemma hex_nat_bound: "m < 16 ^ length (hex_nat m)"
proof (induction m rule: hex_nat.induct)
  case (1 n)
  show ?case
  proof (cases "n < 16")
    case True
    then show ?thesis by (simp add: hex_nat_small)
  next
    case False
    then have ih: "n div 16 < 16 ^ length (hex_nat (n div 16))"
      using "1.IH" by simp
    have len: "length (hex_nat n) = Suc (length (hex_nat (n div 16)))"
      using False by (subst hex_nat.simps) simp
    have "n < 16 * (n div 16 + 1)"
      by presburger
    also have "\<dots> \<le> 16 * 16 ^ length (hex_nat (n div 16))"
      using ih by simp
    finally show ?thesis
      by (simp add: len)
  qed
qed

lemma range_list_unit: "range_list a b 1 = [a..b - 1]"
proof -
  have aux: "map (\<lambda>i. a + int i) [0..<m] = [a..a + int m - 1]" for m
  proof (induction m)
    case 0
    then show ?case by simp
  next
    case (Suc m)
    have "[a..a + int (Suc m) - 1] = [a..a + int m - 1] @ [a + int m]"
      using upto_rec2 [of a "a + int m"] by simp
    with Suc show ?case by simp
  qed
  show ?thesis
  proof (cases "a < b")
    case True
    then show ?thesis
      using aux [of "nat (b - a)"] by (simp add: range_list_def range_len_def)
  next
    case False
    then show ?thesis by (simp add: range_list_def range_len_def)
  qed
qed

lemma range_len_exact:
  assumes "0 < B" "0 < n"
  shows "range_len 0 (n * B) B = nat n"
proof -
  have split: "n * B - 1 = (B - 1) + (n - 1) * B"
    by (simp add: algebra_simps)
  have "(B - 1 + (n - 1) * B) div B = (n - 1) + (B - 1) div B"
    using assms div_mult_self1 [of B "B - 1" "n - 1"] by simp
  moreover have "(B - 1) div B = 0"
    using assms by (simp add: div_pos_pos_trivial)
  ultimately have "(B - 1 + (n - 1) * B) div B = n - 1"
    by simp
  then have "(n * B - 1) div B = n - 1"
    by (simp only: split)
  then show ?thesis
    using assms by (simp add: range_len_def)
qed


lemma load_constants_pow2:
  assumes "n = 2 ^ k"
  obtains L where "load_constants n =
      Inr \<lparr>NUMBER_OF_BINS = n, PREFIX_LEN = L, NUMBER_OF_PREFIXES = 16 ^ L,
           BIN_SIZE = 2 ^ (4 * L - k)\<rparr>"
    and "k \<le> 4 * L" and "1 \<le> L" and "n * 2 ^ (4 * L - k) = (16::int) ^ L"
proof -
  define L where "L = length (hex_nat (nat (n - 1)))"
  have npos: "0 < n" using assms by simp
  have hexeq: "py_hex (n - 1) = hex_nat (nat (n - 1))"
    using npos by (simp add: py_hex_def)
  have L1: "1 \<le> L"
    using hex_nat_nonempty [of "nat (n - 1)"] by (cases "hex_nat (nat (n - 1))") (auto simp: L_def)
  have "nat (n - 1) < 16 ^ L"
    unfolding L_def by (rule hex_nat_bound)
  then have "n - 1 < int (16 ^ L)"
    using npos by linarith
  then have "n \<le> 16 ^ L"
    by simp
  moreover have sixteen: "(16::int) ^ L = 2 ^ (4 * L)"
    by (simp add: power_mult)
  ultimately have "(2::int) ^ k \<le> 2 ^ (4 * L)"
    using assms by simp
  then have kL: "k \<le> 4 * L"
    by (simp add: power_increasing_iff)
  have "(2::int) ^ (4 * L) = 2 ^ (k + (4 * L - k))"
    using kL by simp
  then have prod: "n * 2 ^ (4 * L - k) = (16::int) ^ L"
    using assms sixteen by (simp add: power_add)
  have "(16::int) ^ L div n = 2 ^ (4 * L - k)"
    using npos prod [symmetric] by simp
  then have "load_constants n =
      Inr \<lparr>NUMBER_OF_BINS = n, PREFIX_LEN = L, NUMBER_OF_PREFIXES = 16 ^ L,
           BIN_SIZE = 2 ^ (4 * L - k)\<rparr>"
    using npos by (simp add: load_constants_def hexeq L_def [symmetric] py_floordiv_def)
  then show ?thesis
    using kL L1 prod that by blast
qed

lemma range_list_multiples:
  assumes "0 < B" "0 < n"
  shows "range_list 0 (n * B) B = map (\<lambda>i. int i * B) [0..<nat n]"
  using assms by (simp add: range_list_def range_len_exact)

lemma bin_intervals_disjoint:
  fixes B :: int
  assumes "0 < B" "i \<noteq> j"
  shows "{int i * B..int i * B + B - 1} \<inter> {int j * B..int j * B + B - 1} = {}"
proof -
  have aux: "{int a * B..int a * B + B - 1} \<inter> {int b * B..int b * B + B - 1} = {}"
    if "a < b" for a b :: nat
  proof -
    from that have "int a + 1 \<le> int b" by simp
    then have "(int a + 1) * B \<le> int b * B"
      using assms(1) by (simp only: mult_right_mono less_imp_le)
    then have "int a * B + B - 1 < int b * B"
      by (simp add: algebra_simps)
    then show ?thesis by auto
  qed
  show ?thesis
  proof (cases "i < j")
    case True
    then show ?thesis by (rule aux)
  next
    case False
    with assms(2) have "j < i" by simp
    then show ?thesis using aux [of j i] by (simp add: Int_commute)
  qed
qed

lemma bin_intervals_cover:
  fixes B :: int
  assumes "0 < B" "0 < n"
  shows "(\<Union>(low, high)\<in>set (map (\<lambda>i. (int i * B, int i * B + B - 1)) [0..<nat n]).
            {low..high}) = {0..n * B - 1}"
proof (intro equalityI subsetI)
  fix x
  assume "x \<in> (\<Union>(low, high)\<in>set (map (\<lambda>i. (int i * B, int i * B + B - 1)) [0..<nat n]).
            {low..high})"
  then obtain i where i: "i < nat n" and x: "int i * B \<le> x" "x \<le> int i * B + B - 1"
    by auto
  from i have "int i + 1 \<le> n" by simp
  then have "(int i + 1) * B \<le> n * B"
    using assms(1) by (simp only: mult_right_mono less_imp_le)
  then have "int i * B + B \<le> n * B"
    by (simp add: algebra_simps)
  then have hi: "x \<le> n * B - 1"
    using x(2) by linarith
  have "0 \<le> int i * B"
    using assms(1) by simp
  then have "0 \<le> x"
    using x(1) by (rule order_trans)
  with hi show "x \<in> {0..n * B - 1}"
    by simp
next
  fix x
  assume "x \<in> {0..n * B - 1}"
  then have x: "0 \<le> x" "x < n * B" by simp_all
  define i where "i = nat (x div B)"
  have d0: "0 \<le> x div B"
    using x(1) assms(1) by (simp add: pos_imp_zdiv_nonneg_iff)
  have modb: "0 \<le> x mod B" "x mod B < B"
    using assms(1) by simp_all
  have e: "B * (x div B) + x mod B = x"
    by (rule mult_div_mod_eq)
  have "x < B * n"
    using x(2) by (simp add: mult.commute)
  with e modb(1) have "B * (x div B) < B * n"
    by linarith
  then have "x div B < n"
    using assms(1) by (simp only: mult_less_cancel_left_pos)
  then have iless: "i < nat n"
    using d0 by (simp add: i_def)
  have ib: "int i * B = x - x mod B"
    using d0 by (simp add: i_def minus_mod_eq_div_mult)
  have "int i * B \<le> x" "x \<le> int i * B + B - 1"
    using ib modb by simp_all
  then show "x \<in> (\<Union>(low, high)\<in>set (map (\<lambda>i. (int i * B, int i * B + B - 1)) [0..<nat n]).
            {low..high})"
    using iless by auto
qed


section \<open>Reading hexadecimal digits back; the shape of a digest\<close>

lemma hex_value_table: "m < 16 \<Longrightarrow> hex_value (''0123456789abcdef'' ! m) = Some m"
proof -
  assume "m < 16"
  then have "m = 0 \<or> m = 1 \<or> m = 2 \<or> m = 3 \<or> m = 4 \<or> m = 5 \<or> m = 6 \<or> m = 7
      \<or> m = 8 \<or> m = 9 \<or> m = 10 \<or> m = 11 \<or> m = 12 \<or> m = 13 \<or> m = 14 \<or> m = 15"
    by arith
  then show ?thesis
    by (elim disjE) (simp_all add: hex_value_def)
qed

lemma hex_value_hex_digit: "hex_value (hex_digit d) = Some (d mod 16)"
  by (simp add: hex_digit_def hex_value_table)

lemma int_digits_snoc:
  "int_digits acc (xs @ [x]) =
     (case int_digits acc xs of
        Inl e \<Rightarrow> Inl e
      | Inr a \<Rightarrow> (case hex_value x of None \<Rightarrow> Inl ValueError | Some d \<Rightarrow> Inr (16 * a + d)))"
  by (induction xs arbitrary: acc) (auto split: option.splits)

lemma int_digits_hex_nat:
  "int_digits acc (hex_nat m) = Inr (acc * 16 ^ length (hex_nat m) + m)"
proof (induction m rule: hex_nat.induct)
  case (1 n)
  show ?case
  proof (cases "n < 16")
    case True
    then show ?thesis
      by (simp add: hex_nat_small hex_value_hex_digit)
  next
    case False
    then have eq: "hex_nat n = hex_nat (n div 16) @ [hex_digit (n mod 16)]"
      by (subst hex_nat.simps) simp
    have ih: "int_digits acc (hex_nat (n div 16)) =
        Inr (acc * 16 ^ length (hex_nat (n div 16)) + n div 16)"
      using False "1.IH" by simp
    show ?thesis
      by (simp add: eq int_digits_snoc ih hex_value_hex_digit algebra_simps)
  qed
qed

lemma int_digits_zeros: "int_digits 0 (replicate k CHR ''0'' @ s) = int_digits 0 s"
  by (induction k) (simp_all add: hex_value_def)

lemma int_digits_pad:
  "0 \<le> v \<Longrightarrow> int_digits 0 (py_hex_pad w v) = Inr (nat v)"
  by (simp add: py_hex_pad_def Let_def int_digits_zeros int_digits_hex_nat)

lemma py_hex_pad_inj:
  assumes "0 \<le> u" "0 \<le> v" "py_hex_pad w u = py_hex_pad w v"
  shows "u = v"
proof -
  have "int_digits 0 (py_hex_pad w u) = int_digits 0 (py_hex_pad w v)"
    by (simp add: assms(3))
  then show ?thesis
    using assms(1,2) by (simp add: int_digits_pad)
qed

lemma hex_nat_length_le: "m < 16 ^ w \<Longrightarrow> 1 \<le> w \<Longrightarrow> length (hex_nat m) \<le> w"
proof (induction m arbitrary: w rule: hex_nat.induct)
  case (1 n)
  show ?case
  proof (cases "n < 16")
    case True
    then show ?thesis using "1.prems" by (simp add: hex_nat_small)
  next
    case False
    then have eq: "hex_nat n = hex_nat (n div 16) @ [hex_digit (n mod 16)]"
      by (subst hex_nat.simps) simp
    obtain w' where w': "w = Suc w'"
      using "1.prems"(2) by (cases w) auto
    have "1 \<le> w'"
    proof (rule ccontr)
      assume "\<not> 1 \<le> w'"
      then have "w = 1" using w' by simp
      then show False using "1.prems"(1) False by simp
    qed
    moreover have "n div 16 < 16 ^ w'"
      using "1.prems"(1) w' by (simp add: less_mult_imp_div_less mult.commute)
    ultimately have "length (hex_nat (n div 16)) \<le> w'"
      using "1.IH" [of w'] False by simp
    then show ?thesis
      by (simp add: eq w')
  qed
qed

lemma py_hex_pad_length:
  assumes "0 \<le> v" "v < 16 ^ w" "1 \<le> w"
  shows "length (py_hex_pad w v) = w"
proof -
  have "nat v < 16 ^ w"
    using assms(1,2) by (simp add: nat_less_iff)
  then have "length (hex_nat (nat v)) \<le> w"
    using assms(3) by (rule hex_nat_length_le)
  then show ?thesis
    using assms(1) by (simp add: py_hex_pad_def Let_def)
qed

lemma hex_nat_digits: "set (hex_nat m) \<subseteq> range hex_digit"
proof (induction m rule: hex_nat.induct)
  case (1 n)
  show ?case
  proof (cases "n < 16")
    case True
    then show ?thesis by (simp add: hex_nat_small)
  next
    case False
    then have eq: "hex_nat n = hex_nat (n div 16) @ [hex_digit (n mod 16)]"
      by (subst hex_nat.simps) simp
    show ?thesis
      using False "1.IH" by (simp add: eq)
  qed
qed

lemma int_digits_bound:
  assumes "set s \<subseteq> range hex_digit"
  shows "\<exists>v. int_digits acc s = Inr v \<and> v < (acc + 1) * 16 ^ length s"
  using assms
proof (induction s arbitrary: acc)
  case Nil
  then show ?case by simp
next
  case (Cons x s)
  then obtain d where x: "x = hex_digit d" by auto
  from Cons obtain v where v: "int_digits (16 * acc + d mod 16) s = Inr v"
      "v < (16 * acc + d mod 16 + 1) * 16 ^ length s"
    by fastforce
  have "16 * acc + d mod 16 + 1 \<le> (acc + 1) * 16"
    by simp
  then have "(16 * acc + d mod 16 + 1) * 16 ^ length s \<le> (acc + 1) * 16 * 16 ^ length s"
    by (rule mult_le_mono1)
  with v(2) have "v < (acc + 1) * 16 * 16 ^ length s"
    by (rule less_le_trans)
  then have "v < (acc + 1) * 16 ^ length (x # s)"
    by (simp add: algebra_simps)
  with v(1) show ?case
    by (simp add: x hex_value_hex_digit)
qed

lemma hex8_props: "length (hex8 w) = 8" "set (hex8 w) \<subseteq> range hex_digit"
  by (auto simp: hex8_def)

lemma state_hex_props: "length (state_hex s) = 64" "set (state_hex s) \<subseteq> range hex_digit"
  using hex8_props(2) by (cases s rule: state_hex.cases, simp add: hex8_props)+

lemma sha256_hexdigest_props:
  "length (sha256_hexdigest data) = 64" "set (sha256_hexdigest data) \<subseteq> range hex_digit"
  by (simp_all add: sha256_hexdigest_def state_hex_props)

section \<open>Encoding a path, the constants of a positive bin count, and the prefix of a digest\<close>

lemma utf8_encode_char_ok: "\<not> is_surrogate cp \<Longrightarrow> \<exists>bs. utf8_encode_char cp = Inr bs"
  by (simp add: utf8_encode_char_def)

lemma utf8_encode_char_surrogate:
  "is_surrogate cp \<Longrightarrow> utf8_encode_char cp = Inl UnicodeEncodeError"
  by (simp add: utf8_encode_char_def is_surrogate_def)

lemma utf8_encode_char_error: "utf8_encode_char cp = Inl e \<Longrightarrow> e = UnicodeEncodeError"
  by (simp add: utf8_encode_char_def split: if_splits)

lemma encode_utf8_error: "encode_utf8 path = Inl e \<Longrightarrow> e = UnicodeEncodeError"
  by (induction path arbitrary: e)
     (auto split: sum.splits dest: utf8_encode_char_error)

lemma encode_utf8_ok:
  "list_all (\<lambda>cp. \<not> is_surrogate cp) path \<Longrightarrow> \<exists>data. encode_utf8 path = Inr data"
proof (induction path)
  case Nil
  then show ?case by simp
next
  case (Cons cp path)
  then obtain bs rest where "utf8_encode_char cp = Inr bs" "encode_utf8 path = Inr rest"
    using utf8_encode_char_ok [of cp] by auto
  then show ?case by simp
qed

lemma encode_utf8_surrogate:
  "cp \<in> set path \<Longrightarrow> is_surrogate cp \<Longrightarrow> encode_utf8 path = Inl UnicodeEncodeError"
proof (induction path)
  case Nil
  then show ?case by simp
next
  case (Cons x path)
  show ?case
  proof (cases "x = cp")
    case True
    then show ?thesis
      using Cons.prems(2) by (simp add: utf8_encode_char_surrogate)
  next
    case False
    then have "encode_utf8 path = Inl UnicodeEncodeError"
      using Cons by simp
    then show ?thesis
      by (auto split: sum.splits dest: utf8_encode_char_error)
  qed
qed

lemma load_constants_pos:
  assumes "1 \<le> n"
  obtains L where "load_constants n =
      Inr \<lparr>NUMBER_OF_BINS = n, PREFIX_LEN = L, NUMBER_OF_PREFIXES = 16 ^ L,
           BIN_SIZE = 16 ^ L div n\<rparr>"
    and "1 \<le> L" and "n \<le> 16 ^ L" and "0 < (16::int) ^ L div n"
proof -
  define L where "L = length (hex_nat (nat (n - 1)))"
  have hexeq: "py_hex (n - 1) = hex_nat (nat (n - 1))"
    using assms by (simp add: py_hex_def)
  have L1: "1 \<le> L"
    using hex_nat_nonempty [of "nat (n - 1)"] by (cases "hex_nat (nat (n - 1))") (auto simp: L_def)
  have "nat (n - 1) < 16 ^ L"
    unfolding L_def by (rule hex_nat_bound)
  then have "n - 1 < int (16 ^ L)"
    using assms by linarith
  then have le: "n \<le> 16 ^ L"
    by simp
  have pos: "0 < (16::int) ^ L div n"
    using assms le by (simp add: pos_imp_zdiv_pos_iff)
  have "load_constants n =
      Inr \<lparr>NUMBER_OF_BINS = n, PREFIX_LEN = L, NUMBER_OF_PREFIXES = 16 ^ L,
           BIN_SIZE = 16 ^ L div n\<rparr>"
    using assms by (simp add: load_constants_def hexeq L_def [symmetric] py_floordiv_def Let_def)
  then show ?thesis
    using L1 le pos that by blast
qed

lemma find_hash_bin_prefix:
  assumes "encode_utf8 path = Inr data" and "1 \<le> PREFIX_LEN c"
    and "NUMBER_OF_PREFIXES c = 16 ^ PREFIX_LEN c" and "0 < BIN_SIZE c"
  obtains prefix where
    "py_int16 (take (PREFIX_LEN c) (sha256_hexdigest data)) = Inr prefix"
    and "0 \<le> prefix" and "prefix < NUMBER_OF_PREFIXES c"
    and "find_hash_bin c path =
      Inr (bin_name c (prefix - prefix mod BIN_SIZE c)
             (prefix - prefix mod BIN_SIZE c + BIN_SIZE c - 1))"
proof -
  define s where "s = take (PREFIX_LEN c) (sha256_hexdigest data)"
  have len: "length s = min 64 (PREFIX_LEN c)"
    by (simp add: s_def sha256_hexdigest_props)
  then have ne: "s \<noteq> []"
    using assms(2) by auto
  have "set s \<subseteq> set (sha256_hexdigest data)"
    unfolding s_def by (rule set_take_subset)
  then have "set s \<subseteq> range hex_digit"
    using sha256_hexdigest_props(2) by (rule subset_trans)
  then have "\<exists>v. int_digits 0 s = Inr v \<and> v < (0 + 1) * 16 ^ length s"
    by (rule int_digits_bound)
  then obtain v where v: "int_digits 0 s = Inr v" "v < (0 + 1) * 16 ^ length s"
    by (elim exE conjE)
  have "(16::nat) ^ length s \<le> 16 ^ PREFIX_LEN c"
    by (rule power_increasing) (simp_all add: len)
  moreover have "v < 16 ^ length s"
    using v(2) by simp
  ultimately have "v < 16 ^ PREFIX_LEN c"
    by (rule less_le_trans [rotated])
  then have "int v < int (16 ^ PREFIX_LEN c)"
    by (simp only: of_nat_less_iff)
  then have small: "int v < NUMBER_OF_PREFIXES c"
    by (simp add: assms(3))
  have p: "py_int16 s = Inr (int v)"
    using ne v(1) by (simp add: py_int16_def)
  have "find_hash_bin c path =
      Inr (bin_name c (int v - int v mod BIN_SIZE c)
             (int v - int v mod BIN_SIZE c + BIN_SIZE c - 1))"
    using assms(4) p by (simp add: find_hash_bin_def assms(1) s_def [symmetric] py_mod_def Let_def)
  with p small show ?thesis
    using that [of "int v"] by (simp add: s_def)
qed

lemma low_in_range_list:
  assumes "0 < B" "0 \<le> p" "p < P"
  shows "p - p mod B \<in> set (range_list 0 P B)"
proof -
  define i where "i = nat (p div B)"
  have d0: "0 \<le> p div B"
    using assms(1,2) by (simp add: pos_imp_zdiv_nonneg_iff)
  have "p div B \<le> (P - 1) div B"
    using assms(1,3) by (intro zdiv_mono1) simp_all
  then have "i < range_len 0 P B"
    using assms d0 by (simp add: range_len_def i_def)
  moreover have "p - p mod B = 0 + int i * B"
    using d0 by (simp add: i_def minus_mod_eq_div_mult)
  ultimately show ?thesis
    unfolding range_list_def by (auto simp: image_iff intro!: bexI [of _ i])
qed

lemma range_list_elems:
  assumes "0 < B" "x \<in> set (range_list 0 P B)"
  shows "0 \<le> x" and "x < P"
proof -
  from assms(2) obtain i where i: "i < range_len 0 P B" and x: "x = int i * B"
    by (auto simp: range_list_def)
  show "0 \<le> x" using assms(1) x by simp
  have lt: "0 < P" and "int i \<le> (P - 1) div B"
    using i assms(1) by (auto simp: range_len_def split: if_splits)
  then have "int i * B \<le> (P - 1) div B * B"
    using assms(1) by (simp add: mult_right_mono)
  moreover have "(P - 1) div B * B + (P - 1) mod B = P - 1"
    by (rule div_mult_mod_eq)
  moreover have "0 \<le> (P - 1) mod B"
    using assms(1) by simp
  ultimately show "x < P" using x by linarith
qed

lemma range_list_distinct: "0 < B \<Longrightarrow> distinct (range_list 0 P B)"
  by (auto simp: range_list_def distinct_map inj_on_def)

section \<open>The digest of the example's target path\<close>

lemma replicate_numeral_Cons: "replicate (numeral k) x = x # replicate (pred_numeral k) x"
  by (simp add: numeral_eq_Suc)

lemma example_bytes:
  "encode_utf8 (str_of ''repo_example/hashed_bin_delegation.py'') =
     Inr [114, 101, 112, 111, 95, 101, 120, 97, 109, 112, 108, 101,
       47, 104, 97, 115, 104, 101, 100, 95, 98, 105, 110, 95,
       100, 101, 108, 101, 103, 97, 116, 105, 111, 110, 46, 112,
       121]"
  by (simp add: str_of_def utf8_encode_char_def)

lemma example_pad:
  "sha_pad [114, 101, 112, 111, 95, 101, 120, 97, 109, 112, 108, 101,
       47, 104, 97, 115, 104, 101, 100, 95, 98, 105, 110, 95,
       100, 101, 108, 101, 103, 97, 116, 105, 111, 110, 46, 112,
       121] =
     [114, 101, 112, 111, 95, 101, 120, 97, 109, 112, 108, 101,
       47, 104, 97, 115, 104, 101, 100, 95, 98, 105, 110, 95,
       100, 101, 108, 101, 103, 97, 116, 105, 111, 110, 46, 112,
       121, 128, 0, 0, 0, 0, 0, 0, 0, 0, 0, 0,
       0, 0, 0, 0, 0, 0, 0, 0, 0, 0, 0, 0,
       0, 0, 1, 40]"
  by (simp add: sha_pad_def upt_conv_Cons replicate_numeral_Cons)

lemma example_blocks:
  "sha_blocks [114, 101, 112, 111, 95, 101, 120, 97, 109, 112, 108, 101,
       47, 104, 97, 115, 104, 101, 100, 95, 98, 105, 110, 95,
       100, 101, 108, 101, 103, 97, 116, 105, 111, 110, 46, 112,
       121, 128, 0, 0, 0, 0, 0, 0, 0, 0, 0, 0,
       0, 0, 0, 0, 0, 0, 0, 0, 0, 0, 0, 0,
       0, 0, 1, 40] =
    [[114, 101, 112, 111, 95, 101, 120, 97, 109, 112, 108, 101,
       47, 104, 97, 115, 104, 101, 100, 95, 98, 105, 110, 95,
       100, 101, 108, 101, 103, 97, 116, 105, 111, 110, 46, 112,
       121, 128, 0, 0, 0, 0, 0, 0, 0, 0, 0, 0,
       0, 0, 0, 0, 0, 0, 0, 0, 0, 0, 0, 0,
       0, 0, 1, 40]]"
  by (simp add: sha_blocks_def)

lemma example_words:
  "block_words [114, 101, 112, 111, 95, 101, 120, 97, 109, 112, 108, 101,
       47, 104, 97, 115, 104, 101, 100, 95, 98, 105, 110, 95,
       100, 101, 108, 101, 103, 97, 116, 105, 111, 110, 46, 112,
       121, 128, 0, 0, 0, 0, 0, 0, 0, 0, 0, 0,
       0, 0, 0, 0, 0, 0, 0, 0, 0, 0, 0, 0,
       0, 0, 1, 40] =
     [1919250543, 1600485473, 1836084325, 795369843, 1751475295, 1651076703,
       1684368485, 1734440041, 1869491824, 2038431744, 0, 0,
       0, 0, 0, 296]"
  by (simp add: block_words_def be32_def upt_conv_Cons)

lemma example_rounds:
  "sha_rounds sha256_k
     [1919250543, 1600485473, 1836084325, 795369843, 1751475295, 1651076703,
       1684368485, 1734440041, 1869491824, 2038431744, 0, 0,
       0, 0, 0, 296]
     sha256_init =
     (467124313, 2812153623, 3785806908, 2970606644,
       1375104329, 3269895276, 1130403116, 484602632)"
  by (simp add: sha256_k_def sha256_init_def next_word_def add32_def rotr32_def shr32_def
      not32_def ch_def maj_def big_sigma0_def big_sigma1_def small_sigma0_def
      small_sigma1_def Let_def)

lemma example_digest:
  "sha256_hexdigest [114, 101, 112, 111, 95, 101, 120, 97, 109, 112, 108, 101,
       47, 104, 97, 115, 104, 101, 100, 95, 98, 105, 110, 95,
       100, 101, 108, 101, 103, 97, 116, 105, 111, 110, 46, 112,
       121] =
     ''85e1a6c06305bd9c1e15c7ae565fd16ea304bfc85dec0cf862e46ed778c34021''"
proof -
  have "sha256 [114, 101, 112, 111, 95, 101, 120, 97, 109, 112, 108, 101,
       47, 104, 97, 115, 104, 101, 100, 95, 98, 105, 110, 95,
       100, 101, 108, 101, 103, 97, 116, 105, 111, 110, 46, 112,
       121] =
      fold sha_block
        [[114, 101, 112, 111, 95, 101, 120, 97, 109, 112, 108, 101,
       47, 104, 97, 115, 104, 101, 100, 95, 98, 105, 110, 95,
       100, 101, 108, 101, 103, 97, 116, 105, 111, 110, 46, 112,
       121, 128, 0, 0, 0, 0, 0, 0, 0, 0, 0, 0,
       0, 0, 0, 0, 0, 0, 0, 0, 0, 0, 0, 0,
       0, 0, 1, 40]]
        sha256_init"
    by (simp only: sha256_def example_pad example_blocks)
  also have "\<dots> =
      sha_block
        [114, 101, 112, 111, 95, 101, 120, 97, 109, 112, 108, 101,
       47, 104, 97, 115, 104, 101, 100, 95, 98, 105, 110, 95,
       100, 101, 108, 101, 103, 97, 116, 105, 111, 110, 46, 112,
       121, 128, 0, 0, 0, 0, 0, 0, 0, 0, 0, 0,
       0, 0, 0, 0, 0, 0, 0, 0, 0, 0, 0, 0,
       0, 0, 1, 40]
        sha256_init"
    by (simp only: fold_simps id_apply o_apply)
  also have "\<dots> =
      add_state sha256_init
        (467124313, 2812153623, 3785806908, 2970606644,
       1375104329, 3269895276, 1130403116, 484602632)"
    by (simp only: sha_block_def example_words example_rounds)
  finally show ?thesis
    by (simp add: sha256_hexdigest_def sha256_init_def add32_def hex8_def hex_digit_def
        upt_conv_Cons)
qed

section \<open>The names that are generated, and the name that is found\<close>

lemma load_constants_32:
  "load_constants 32 =
     Inr \<lparr>NUMBER_OF_BINS = 32, PREFIX_LEN = 2, NUMBER_OF_PREFIXES = 256, BIN_SIZE = 8\<rparr>"
  by (simp add: load_constants_def py_hex_def hex_nat.simps py_floordiv_def)

lemma generated_names:
  assumes "0 < BIN_SIZE c" "1 \<le> PREFIX_LEN c" "NUMBER_OF_PREFIXES c = 16 ^ PREFIX_LEN c"
  shows "generate_hash_bins c = Inr (map (hash_bin c) (range_list 0 (NUMBER_OF_PREFIXES c) (BIN_SIZE c)))"
    and "distinct (map fst (map (hash_bin c) (range_list 0 (NUMBER_OF_PREFIXES c) (BIN_SIZE c))))"
proof -
  let ?lows = "range_list 0 (NUMBER_OF_PREFIXES c) (BIN_SIZE c)"
  let ?L = "PREFIX_LEN c"
  show "generate_hash_bins c = Inr (map (hash_bin c) ?lows)"
    using assms(1) by (simp add: generate_hash_bins_def py_range_def)
  have pre: "take ?L (fst (hash_bin c low)) = py_hex_pad ?L low" if "low \<in> set ?lows" for low
  proof -
    have "0 \<le> low" "low < 16 ^ ?L"
      using range_list_elems [OF assms(1) that] by (simp_all add: assms(3))
    then have "length (py_hex_pad ?L low) = ?L"
      using assms(2) by (rule py_hex_pad_length)
    then show ?thesis
      by (simp add: hash_bin_def bin_name_def Let_def)
  qed
  have "inj_on (\<lambda>low. fst (hash_bin c low)) (set ?lows)"
  proof (rule inj_onI)
    fix x y
    assume x: "x \<in> set ?lows" and y: "y \<in> set ?lows"
      and eq: "fst (hash_bin c x) = fst (hash_bin c y)"
    have "py_hex_pad ?L x = py_hex_pad ?L y"
      using pre [OF x] pre [OF y] eq by simp
    moreover have "0 \<le> x" "0 \<le> y"
      using range_list_elems(1) [OF assms(1)] x y by blast+
    ultimately show "x = y"
      using py_hex_pad_inj by blast
  qed
  then show "distinct (map fst (map (hash_bin c) ?lows))"
    using range_list_distinct [OF assms(1)] by (simp add: distinct_map o_def)
qed

lemma find_hash_bin_member:
  assumes "1 \<le> n" and "list_all (\<lambda>cp. \<not> is_surrogate cp) path"
  shows "\<exists>c bins bin.
      load_constants n = Inr c \<and> generate_hash_bins c = Inr bins
    \<and> find_hash_bin c path = Inr bin
    \<and> bin \<in> set (map fst bins) \<and> distinct (map fst bins)
    \<and> 0 < BIN_SIZE c \<and> 1 \<le> PREFIX_LEN c \<and> NUMBER_OF_PREFIXES c = 16 ^ PREFIX_LEN c"
proof -
  from assms(1) obtain L where
    lc: "load_constants n =
      Inr \<lparr>NUMBER_OF_BINS = n, PREFIX_LEN = L, NUMBER_OF_PREFIXES = 16 ^ L,
           BIN_SIZE = 16 ^ L div n\<rparr>"
    and L1: "1 \<le> L" and Bpos: "0 < (16::int) ^ L div n"
    by (rule load_constants_pos)
  define c where "c = \<lparr>NUMBER_OF_BINS = n, PREFIX_LEN = L, NUMBER_OF_PREFIXES = 16 ^ L,
           BIN_SIZE = 16 ^ L div n\<rparr>"
  have sel: "0 < BIN_SIZE c" "1 \<le> PREFIX_LEN c" "NUMBER_OF_PREFIXES c = 16 ^ PREFIX_LEN c"
    using L1 Bpos by (simp_all add: c_def)
  define bins where "bins = map (hash_bin c) (range_list 0 (NUMBER_OF_PREFIXES c) (BIN_SIZE c))"
  from assms(2) obtain data where enc: "encode_utf8 path = Inr data"
    using encode_utf8_ok by blast
  from enc sel(2,3,1) obtain prefix where
    p: "0 \<le> prefix" "prefix < NUMBER_OF_PREFIXES c"
    and f: "find_hash_bin c path =
      Inr (bin_name c (prefix - prefix mod BIN_SIZE c)
             (prefix - prefix mod BIN_SIZE c + BIN_SIZE c - 1))"
    by (rule find_hash_bin_prefix)
  let ?low = "prefix - prefix mod BIN_SIZE c"
  have "?low \<in> set (range_list 0 (NUMBER_OF_PREFIXES c) (BIN_SIZE c))"
    using sel(1) p by (rule low_in_range_list)
  then have "fst (hash_bin c ?low) \<in> set (map fst bins)"
    unfolding bins_def by simp
  moreover have "fst (hash_bin c ?low) = bin_name c ?low (?low + BIN_SIZE c - 1)"
    by (simp add: hash_bin_def Let_def)
  ultimately have mem: "bin_name c ?low (?low + BIN_SIZE c - 1) \<in> set (map fst bins)"
    by simp
  have "load_constants n = Inr c"
    using lc by (simp add: c_def)
  moreover have "generate_hash_bins c = Inr bins"
    unfolding bins_def using sel by (rule generated_names(1))
  moreover have "distinct (map fst bins)"
    unfolding bins_def using sel by (rule generated_names(2))
  ultimately show ?thesis
    using f mem sel by blast
qed

section \<open>The bins partition the prefix space\<close>

text \<open>
  Claim C1. For every bin count \<open>n\<close> that is a power of two, the constants are derived
  without error, \<open>1 \<le> n \<le> NUMBER_OF_PREFIXES\<close> and \<open>BIN_SIZE * n = NUMBER_OF_PREFIXES\<close>
  hold, and \<^verbatim>\<open>generate_hash_bins\<close> yields exactly \<open>n\<close> bins. The \<open>i\<close>-th bin has the range
  \<open>[i * BIN_SIZE, i * BIN_SIZE + BIN_SIZE - 1]\<close>, the name \<^verbatim>\<open>_bin_name\<close> gives that range,
  and the formatted prefixes of that range as its list of hash prefixes. The ranges are
  pairwise disjoint and their union is \<open>[0, NUMBER_OF_PREFIXES - 1]\<close>.
\<close>

theorem generate_hash_bins_partition:
  assumes "n = 2 ^ k"
  shows "\<exists>c bins rs.
     load_constants n = Inr c \<and> generate_hash_bins c = Inr bins \<and> hash_bin_ranges c = Inr rs
   \<and> 1 \<le> n \<and> n \<le> NUMBER_OF_PREFIXES c
   \<and> NUMBER_OF_PREFIXES c = 16 ^ PREFIX_LEN c
   \<and> BIN_SIZE c * n = NUMBER_OF_PREFIXES c
   \<and> int (length bins) = n \<and> length rs = length bins
   \<and> (\<forall>i<length rs. rs ! i = (int i * BIN_SIZE c, int i * BIN_SIZE c + BIN_SIZE c - 1))
   \<and> (\<forall>i<length bins. bins ! i =
         (bin_name c (fst (rs ! i)) (snd (rs ! i)),
          map (py_hex_pad (PREFIX_LEN c)) [fst (rs ! i)..snd (rs ! i)]))
   \<and> (\<forall>i<length rs. \<forall>j<length rs. i \<noteq> j \<longrightarrow>
         {fst (rs ! i)..snd (rs ! i)} \<inter> {fst (rs ! j)..snd (rs ! j)} = {})
   \<and> (\<Union>(low, high)\<in>set rs. {low..high}) = {0..NUMBER_OF_PREFIXES c - 1}"
proof -
  from assms obtain L where
    lc: "load_constants n =
      Inr \<lparr>NUMBER_OF_BINS = n, PREFIX_LEN = L, NUMBER_OF_PREFIXES = 16 ^ L,
           BIN_SIZE = 2 ^ (4 * L - k)\<rparr>"
    and prod: "n * 2 ^ (4 * L - k) = (16::int) ^ L"
    by (rule load_constants_pow2)
  define B :: int where "B = 2 ^ (4 * L - k)"
  define c where "c = \<lparr>NUMBER_OF_BINS = n, PREFIX_LEN = L, NUMBER_OF_PREFIXES = 16 ^ L,
           BIN_SIZE = B\<rparr>"
  define rs where "rs = map (\<lambda>i. (int i * B, int i * B + B - 1)) [0..<nat n]"
  define bins where "bins = map (hash_bin c) (map (\<lambda>i. int i * B) [0..<nat n])"
  have Bpos: "0 < B" by (simp add: B_def)
  have npos: "0 < n" using assms by simp
  have P: "(16::int) ^ L = n * B" using prod by (simp add: B_def)
  have sel: "PREFIX_LEN c = L" "NUMBER_OF_PREFIXES c = n * B" "BIN_SIZE c = B"
    by (simp_all add: c_def P)
  have lows: "py_range 0 (n * B) B = Inr (map (\<lambda>i. int i * B) [0..<nat n])"
    using Bpos npos by (simp add: py_range_def range_list_multiples)
  have c1: "load_constants n = Inr c"
    using lc by (simp add: c_def B_def)
  have c2: "generate_hash_bins c = Inr bins"
    by (simp add: generate_hash_bins_def sel lows bins_def)
  have c3: "hash_bin_ranges c = Inr rs"
    by (simp add: hash_bin_ranges_def sel lows rs_def o_def)
  have c4: "1 \<le> n" using npos by simp
  have "1 * n \<le> B * n"
    using Bpos npos by (intro mult_right_mono) simp_all
  then have c5: "n \<le> NUMBER_OF_PREFIXES c"
    by (simp add: sel mult.commute)
  have c6: "NUMBER_OF_PREFIXES c = 16 ^ PREFIX_LEN c"
    by (simp add: sel P)
  have c7: "BIN_SIZE c * n = NUMBER_OF_PREFIXES c"
    by (simp add: sel mult.commute)
  have len: "length rs = nat n" "length bins = nat n"
    by (simp_all add: rs_def bins_def)
  have c8: "int (length bins) = n"
    using npos by (simp add: len)
  have c8': "length rs = length bins"
    by (simp add: len)
  have nth_rs: "rs ! i = (int i * B, int i * B + B - 1)" if "i < nat n" for i
    using that by (simp add: rs_def)
  have c9: "\<forall>i<length rs. rs ! i = (int i * BIN_SIZE c, int i * BIN_SIZE c + BIN_SIZE c - 1)"
    by (simp add: len sel nth_rs)
  have nth_bins: "bins ! i =
         (bin_name c (int i * B) (int i * B + B - 1),
          map (py_hex_pad (PREFIX_LEN c)) [int i * B..int i * B + B - 1])" if "i < nat n" for i
    using that by (simp add: bins_def hash_bin_def sel range_list_unit Let_def)
  have c10: "\<forall>i<length bins. bins ! i =
         (bin_name c (fst (rs ! i)) (snd (rs ! i)),
          map (py_hex_pad (PREFIX_LEN c)) [fst (rs ! i)..snd (rs ! i)])"
    by (simp add: len nth_rs nth_bins)
  have c11: "\<forall>i<length rs. \<forall>j<length rs. i \<noteq> j \<longrightarrow>
         {fst (rs ! i)..snd (rs ! i)} \<inter> {fst (rs ! j)..snd (rs ! j)} = {}"
  proof (intro allI impI)
    fix i j
    assume "i < length rs" "j < length rs" "i \<noteq> j"
    then show "{fst (rs ! i)..snd (rs ! i)} \<inter> {fst (rs ! j)..snd (rs ! j)} = {}"
      using bin_intervals_disjoint [OF Bpos, of i j] by (simp add: len nth_rs)
  qed
  have c12: "(\<Union>(low, high)\<in>set rs. {low..high}) = {0..NUMBER_OF_PREFIXES c - 1}"
    unfolding rs_def sel by (rule bin_intervals_cover [OF Bpos npos])
  show ?thesis
    by (rule exI [of _ c], rule exI [of _ bins], rule exI [of _ rs])
       (intro conjI c1 c2 c3 c4 c5 c6 c7 c8 c8' c9 c10 c11 c12)
qed

text \<open>The theorem at the bin count of the example, \<open>32 = 2 ^ 5\<close>.\<close>

theorem generate_hash_bins_partition_32:
  "(32::int) = 2 ^ 5 \<and> (\<exists>c bins rs.
     load_constants 32 = Inr c \<and> generate_hash_bins c = Inr bins \<and> hash_bin_ranges c = Inr rs
   \<and> 1 \<le> (32::int) \<and> 32 \<le> NUMBER_OF_PREFIXES c
   \<and> NUMBER_OF_PREFIXES c = 16 ^ PREFIX_LEN c
   \<and> BIN_SIZE c * 32 = NUMBER_OF_PREFIXES c
   \<and> int (length bins) = 32 \<and> length rs = length bins
   \<and> (\<forall>i<length rs. rs ! i = (int i * BIN_SIZE c, int i * BIN_SIZE c + BIN_SIZE c - 1))
   \<and> (\<forall>i<length bins. bins ! i =
         (bin_name c (fst (rs ! i)) (snd (rs ! i)),
          map (py_hex_pad (PREFIX_LEN c)) [fst (rs ! i)..snd (rs ! i)]))
   \<and> (\<forall>i<length rs. \<forall>j<length rs. i \<noteq> j \<longrightarrow>
         {fst (rs ! i)..snd (rs ! i)} \<inter> {fst (rs ! j)..snd (rs ! j)} = {})
   \<and> (\<Union>(low, high)\<in>set rs. {low..high}) = {0..NUMBER_OF_PREFIXES c - 1})"
proof -
  have h: "(32::int) = 2 ^ 5" by simp
  show ?thesis
    by (rule conjI [OF h generate_hash_bins_partition [OF h]])
qed

section \<open>The loop that wires the delegations\<close>

lemma update_fresh: "k \<notin> set (map fst al) \<Longrightarrow> AList.update k v al = al @ [(k, v)]"
  by (induction al) auto

lemma hex_digit_chars: "hex_digit d \<in> set ''0123456789abcdef''"
  unfolding hex_digit_def by (rule nth_mem) simp

lemma py_hex_pad_chars: "set (py_hex_pad w v) \<subseteq> set ''0123456789abcdef-''"
proof -
  have "set (hex_nat m) \<subseteq> set ''0123456789abcdef''" for m
    using hex_nat_digits [of m] hex_digit_chars by blast
  then have "set (hex_nat (nat \<bar>v\<bar>)) \<subseteq> set ''0123456789abcdef-''"
    by (rule subset_trans) auto
  then show ?thesis
    by (auto simp: py_hex_pad_def Let_def)
qed

lemma bin_name_chars: "set (bin_name c low high) \<subseteq> set ''0123456789abcdef-''"
  using py_hex_pad_chars [of "PREFIX_LEN c" low] py_hex_pad_chars [of "PREFIX_LEN c" high]
  by (auto simp: bin_name_def)

lemma bin_name_not_bins: "bin_name c low high \<noteq> ''bins''"
proof
  assume "bin_name c low high = ''bins''"
  then have "CHR ''i'' \<in> set (bin_name c low high)" by simp
  then have "CHR ''i'' \<in> set ''0123456789abcdef-''"
    using bin_name_chars by blast
  then show False by simp
qed

lemma delegate_bins_result:
  assumes "distinct (map fst bs)" and "''bins'' \<notin> set (map fst bs)"
    and "set (map fst bs) \<inter> set (map fst kids) = {}"
    and "set (map fst bs) \<inter> set (map fst (roles d)) = {}"
    and "delegations (signed p) = Some d"
  shows "delegate_bins ev ((''bins'', p) # kids) bs =
     Inr ((''bins'',
           p\<lparr>signed := (signed p)\<lparr>delegations := Some (d\<lparr>roles := roles d @
              map (\<lambda>(nm, hs). (nm, \<lparr>name = nm, keyids = [keyid (key_bin_n ev)],
                    threshold = 1, terminating = False, path_hash_prefixes = hs\<rparr>)) bs\<rparr>)\<rparr>\<rparr>)
          # kids @ map (\<lambda>b. (fst b, bin_n_role ev)) bs)"
  using assms
proof (induction bs arbitrary: p kids d)
  case Nil
  then show ?case by simp
next
  case (Cons b bs)
  obtain nm hs where b: "b = (nm, hs)" by (cases b)
  let ?role = "\<lparr>name = nm, keyids = [keyid (key_bin_n ev)],
                    threshold = 1, terminating = False, path_hash_prefixes = hs\<rparr>"
  let ?d = "d\<lparr>roles := roles d @ [(nm, ?role)]\<rparr>"
  let ?p = "p\<lparr>signed := (signed p)\<lparr>delegations := Some ?d\<rparr>\<rparr>"
  have nm: "nm \<noteq> ''bins''" "nm \<notin> set (map fst kids)" "nm \<notin> set (map fst (roles d))"
      "nm \<notin> set (map fst bs)"
    using Cons.prems b by auto
  have step: "delegate_bin ev ((''bins'', p) # kids) (nm, hs) =
      Inr ((''bins'', ?p) # (kids @ [(nm, bin_n_role ev)]))"
    using nm Cons.prems(5)
    by (simp add: delegate_bin_def update_fresh Let_def)
  have "delegate_bins ev ((''bins'', ?p) # (kids @ [(nm, bin_n_role ev)])) bs =
     Inr ((''bins'',
           ?p\<lparr>signed := (signed ?p)\<lparr>delegations := Some (?d\<lparr>roles := roles ?d @
              map (\<lambda>(nm, hs). (nm, \<lparr>name = nm, keyids = [keyid (key_bin_n ev)],
                    threshold = 1, terminating = False, path_hash_prefixes = hs\<rparr>)) bs\<rparr>)\<rparr>\<rparr>)
          # (kids @ [(nm, bin_n_role ev)]) @ map (\<lambda>b. (fst b, bin_n_role ev)) bs)"
  proof (rule Cons.IH)
    show "distinct (map fst bs)" using Cons.prems(1) by simp
    show "''bins'' \<notin> set (map fst bs)" using Cons.prems(2) by simp
    show "set (map fst bs) \<inter> set (map fst (kids @ [(nm, bin_n_role ev)])) = {}"
      using Cons.prems(1,3) b by auto
    show "set (map fst bs) \<inter> set (map fst (roles ?d)) = {}"
      using Cons.prems(1,4) b by auto
    show "delegations (signed ?p) = Some ?d" by simp
  qed
  then show ?case
    by (simp add: step b)
qed

lemma build_delegation_result:
  assumes "0 < BIN_SIZE c" "1 \<le> PREFIX_LEN c" "NUMBER_OF_PREFIXES c = 16 ^ PREFIX_LEN c"
    and "generate_hash_bins c = Inr bins"
  shows "build_delegation ev c =
     Inr ((''bins'',
           (bins_role ev)\<lparr>signed := (signed (bins_role ev))\<lparr>delegations := Some
              \<lparr>keys = [(keyid (key_bin_n ev), from_securesystemslib_key (key_bin_n ev))],
               roles = map (\<lambda>(nm, hs). (nm, \<lparr>name = nm, keyids = [keyid (key_bin_n ev)],
                    threshold = 1, terminating = False, path_hash_prefixes = hs\<rparr>)) bins\<rparr>\<rparr>\<rparr>)
          # map (\<lambda>b. (fst b, bin_n_role ev)) bins)"
    and "distinct (map fst bins)" and "''bins'' \<notin> set (map fst bins)"
proof -
  have bins: "bins = map (hash_bin c) (range_list 0 (NUMBER_OF_PREFIXES c) (BIN_SIZE c))"
    using generated_names(1) [OF assms(1-3)] assms(4) by simp
  show d: "distinct (map fst bins)"
    unfolding bins using assms(1-3) by (rule generated_names(2))
  show nb: "''bins'' \<notin> set (map fst bins)"
  proof
    assume "''bins'' \<in> set (map fst bins)"
    then obtain low where "''bins'' = fst (hash_bin c low)"
      by (auto simp: bins)
    then have "bin_name c low (low + BIN_SIZE c - 1) = ''bins''"
      by (simp add: hash_bin_def Let_def)
    then show False
      using bin_name_not_bins by blast
  qed
  have "delegate_bins ev ((''bins'', bins_role ev) # []) bins =
     Inr ((''bins'',
           (bins_role ev)\<lparr>signed := (signed (bins_role ev))\<lparr>delegations := Some
             (\<lparr>keys = [(keyid (key_bin_n ev), from_securesystemslib_key (key_bin_n ev))],
               roles = []\<rparr>\<lparr>roles := roles \<lparr>keys = [(keyid (key_bin_n ev), from_securesystemslib_key (key_bin_n ev))],
               roles = []\<rparr> @
              map (\<lambda>(nm, hs). (nm, \<lparr>name = nm, keyids = [keyid (key_bin_n ev)],
                    threshold = 1, terminating = False, path_hash_prefixes = hs\<rparr>)) bins\<rparr>)\<rparr>\<rparr>)
          # [] @ map (\<lambda>b. (fst b, bin_n_role ev)) bins)"
    using d nb by (rule delegate_bins_result) (simp_all add: bins_role_def)
  then show "build_delegation ev c =
     Inr ((''bins'',
           (bins_role ev)\<lparr>signed := (signed (bins_role ev))\<lparr>delegations := Some
              \<lparr>keys = [(keyid (key_bin_n ev), from_securesystemslib_key (key_bin_n ev))],
               roles = map (\<lambda>(nm, hs). (nm, \<lparr>name = nm, keyids = [keyid (key_bin_n ev)],
                    threshold = 1, terminating = False, path_hash_prefixes = hs\<rparr>)) bins\<rparr>\<rparr>\<rparr>)
          # map (\<lambda>b. (fst b, bin_n_role ev)) bins)"
    by (simp add: build_delegation_def assms(4))
qed

section \<open>Finding the bin of a target path\<close>

text \<open>
  Claim C7. With the constants of 32 bins (prefix length 2, bin size 8), every target
  path whose encoding has a SHA-256 digest that starts with the two digits \<^verbatim>\<open>85\<close> is
  assigned to the bin \<^verbatim>\<open>80-87\<close>.
\<close>

theorem find_hash_bin_prefix_85:
  assumes "encode_utf8 path = Inr data" and "take 2 (sha256_hexdigest data) = ''85''"
  shows "load_constants 32 =
     Inr \<lparr>NUMBER_OF_BINS = 32, PREFIX_LEN = 2, NUMBER_OF_PREFIXES = 256, BIN_SIZE = 8\<rparr>
   \<and> find_hash_bin
        \<lparr>NUMBER_OF_BINS = 32, PREFIX_LEN = 2, NUMBER_OF_PREFIXES = 256, BIN_SIZE = 8\<rparr>
        path = Inr ''80-87''"
proof -
  have p: "py_int16 ''85'' = Inr 133"
    by (simp add: py_int16_def hex_value_def)
  have "bin_name
      \<lparr>NUMBER_OF_BINS = 32, PREFIX_LEN = 2, NUMBER_OF_PREFIXES = 256, BIN_SIZE = 8\<rparr>
      128 135 = ''80-87''"
    by (simp add: bin_name_def py_hex_pad_def hex_nat.simps hex_digit_def Let_def)
  then show ?thesis
    by (simp add: load_constants_32 find_hash_bin_def assms p py_mod_def Let_def)
qed

text \<open>The path of the example, \<^verbatim>\<open>repo_example/hashed_bin_delegation.py\<close>, is such a path:
  its digest is \<^verbatim>\<open>85e1a6c0...\<close>, as the comment of lines 209--212 says.\<close>

theorem find_hash_bin_example_path:
  "encode_utf8 (str_of ''repo_example/hashed_bin_delegation.py'') =
     Inr [114, 101, 112, 111, 95, 101, 120, 97, 109, 112, 108, 101,
       47, 104, 97, 115, 104, 101, 100, 95, 98, 105, 110, 95,
       100, 101, 108, 101, 103, 97, 116, 105, 111, 110, 46, 112,
       121]
   \<and> take 2 (sha256_hexdigest
       [114, 101, 112, 111, 95, 101, 120, 97, 109, 112, 108, 101,
       47, 104, 97, 115, 104, 101, 100, 95, 98, 105, 110, 95,
       100, 101, 108, 101, 103, 97, 116, 105, 111, 110, 46, 112,
       121]) = ''85''
   \<and> (load_constants 32 =
     Inr \<lparr>NUMBER_OF_BINS = 32, PREFIX_LEN = 2, NUMBER_OF_PREFIXES = 256, BIN_SIZE = 8\<rparr>
   \<and> find_hash_bin
        \<lparr>NUMBER_OF_BINS = 32, PREFIX_LEN = 2, NUMBER_OF_PREFIXES = 256, BIN_SIZE = 8\<rparr>
        (str_of ''repo_example/hashed_bin_delegation.py'') = Inr ''80-87'')"
proof -
  have h2: "take 2 (sha256_hexdigest
       [114, 101, 112, 111, 95, 101, 120, 97, 109, 112, 108, 101,
       47, 104, 97, 115, 104, 101, 100, 95, 98, 105, 110, 95,
       100, 101, 108, 101, 103, 97, 116, 105, 111, 110, 46, 112,
       121]) = ''85''"
    by (simp add: example_digest)
  show ?thesis
    by (rule conjI [OF example_bytes conjI [OF h2 find_hash_bin_prefix_85 [OF example_bytes h2]]])
qed

text \<open>
  Claim C2, as amended. For every bin count that is a power of two and every target path
  that UTF-8 can encode (a path without surrogate code points; the empty path
  included), \<^verbatim>\<open>find_hash_bin\<close> returns a name, this name is among the names that
  \<^verbatim>\<open>generate_hash_bins\<close> yields, and the names yielded are pairwise distinct, so the
  path belongs to exactly one bin.
\<close>

theorem find_hash_bin_in_generated_bins:
  assumes "n = 2 ^ k" and "list_all (\<lambda>cp. \<not> is_surrogate cp) path"
  shows "\<exists>c bins bin.
      load_constants n = Inr c \<and> generate_hash_bins c = Inr bins
    \<and> find_hash_bin c path = Inr bin
    \<and> bin \<in> set (map fst bins) \<and> distinct (map fst bins)"
proof -
  have "1 \<le> n" using assms(1) by simp
  then show ?thesis using find_hash_bin_member [of n path] assms(2) by blast
qed

text \<open>The theorem at 32 bins and the path of the example.\<close>

theorem find_hash_bin_in_generated_bins_example:
  "(32::int) = 2 ^ 5
   \<and> list_all (\<lambda>cp. \<not> is_surrogate cp) (str_of ''repo_example/hashed_bin_delegation.py'')
   \<and> (\<exists>c bins bin.
      load_constants 32 = Inr c \<and> generate_hash_bins c = Inr bins
    \<and> find_hash_bin c (str_of ''repo_example/hashed_bin_delegation.py'') = Inr bin
    \<and> bin \<in> set (map fst bins) \<and> distinct (map fst bins))"
proof -
  have h1: "(32::int) = 2 ^ 5" by simp
  have h2: "list_all (\<lambda>cp. \<not> is_surrogate cp)
      (str_of ''repo_example/hashed_bin_delegation.py'')"
    by (simp add: str_of_def is_surrogate_def)
  show ?thesis
    by (rule conjI [OF h1 conjI [OF h2 find_hash_bin_in_generated_bins [OF h1 h2]]])
qed

text \<open>The claim as stated, for every non-empty string, fails: the path made of the
  letter \<^verbatim>\<open>a\<close> and the lone surrogate \<open>U+DC80\<close> is a non-empty \<^verbatim>\<open>str\<close>, and
  \<^verbatim>\<open>path.encode("utf-8")\<close> raises \<^verbatim>\<open>UnicodeEncodeError\<close> on it, so no bin name is
  returned.\<close>

theorem find_hash_bin_lone_surrogate:
  "load_constants 32 =
     Inr \<lparr>NUMBER_OF_BINS = 32, PREFIX_LEN = 2, NUMBER_OF_PREFIXES = 256, BIN_SIZE = 8\<rparr>
   \<and> find_hash_bin
        \<lparr>NUMBER_OF_BINS = 32, PREFIX_LEN = 2, NUMBER_OF_PREFIXES = 256, BIN_SIZE = 8\<rparr>
        [97, 56448] = Inl UnicodeEncodeError"
  by (simp add: load_constants_32 find_hash_bin_def utf8_encode_char_def is_surrogate_def)

text \<open>
  Claim C10, as amended. For every bin count \<open>n \<ge> 1\<close> the constants are derived and the
  bin size is positive. On a path without surrogate code points (the empty path
  included) \<^verbatim>\<open>find_hash_bin\<close> returns without error: the path is encoded, the digest has
  64 digits, its first \<^verbatim>\<open>PREFIX_LEN\<close> digits are read as a prefix in
  \<open>[0, NUMBER_OF_PREFIXES - 1]\<close>, and the result is the name of the range
  \<open>[low, high]\<close> with \<open>low = prefix - prefix mod BIN_SIZE\<close> and
  \<open>high = low + BIN_SIZE - 1\<close>, which contains the prefix. On a path with a surrogate
  code point it raises \<^verbatim>\<open>UnicodeEncodeError\<close>.
\<close>

theorem find_hash_bin_total:
  assumes "1 \<le> n"
  shows "\<exists>c. load_constants n = Inr c \<and> 0 < BIN_SIZE c \<and>
     (if list_ex is_surrogate path then find_hash_bin c path = Inl UnicodeEncodeError
      else \<exists>data prefix.
          encode_utf8 path = Inr data
        \<and> length (sha256_hexdigest data) = 64
        \<and> py_int16 (take (PREFIX_LEN c) (sha256_hexdigest data)) = Inr prefix
        \<and> 0 \<le> prefix \<and> prefix < NUMBER_OF_PREFIXES c
        \<and> find_hash_bin c path =
            Inr (bin_name c (prefix - prefix mod BIN_SIZE c)
                   (prefix - prefix mod BIN_SIZE c + BIN_SIZE c - 1))
        \<and> 0 \<le> prefix - prefix mod BIN_SIZE c
        \<and> prefix - prefix mod BIN_SIZE c \<le> prefix
        \<and> prefix \<le> prefix - prefix mod BIN_SIZE c + BIN_SIZE c - 1)"
proof -
  from assms obtain L where
    lc: "load_constants n =
      Inr \<lparr>NUMBER_OF_BINS = n, PREFIX_LEN = L, NUMBER_OF_PREFIXES = 16 ^ L,
           BIN_SIZE = 16 ^ L div n\<rparr>"
    and L1: "1 \<le> L" and Bpos: "0 < (16::int) ^ L div n"
    by (rule load_constants_pos)
  define c where "c = \<lparr>NUMBER_OF_BINS = n, PREFIX_LEN = L, NUMBER_OF_PREFIXES = 16 ^ L,
           BIN_SIZE = 16 ^ L div n\<rparr>"
  have sel: "0 < BIN_SIZE c" "1 \<le> PREFIX_LEN c" "NUMBER_OF_PREFIXES c = 16 ^ PREFIX_LEN c"
    using L1 Bpos by (simp_all add: c_def)
  have c1: "load_constants n = Inr c"
    using lc by (simp add: c_def)
  have c3: "if list_ex is_surrogate path then find_hash_bin c path = Inl UnicodeEncodeError
      else \<exists>data prefix.
          encode_utf8 path = Inr data
        \<and> length (sha256_hexdigest data) = 64
        \<and> py_int16 (take (PREFIX_LEN c) (sha256_hexdigest data)) = Inr prefix
        \<and> 0 \<le> prefix \<and> prefix < NUMBER_OF_PREFIXES c
        \<and> find_hash_bin c path =
            Inr (bin_name c (prefix - prefix mod BIN_SIZE c)
                   (prefix - prefix mod BIN_SIZE c + BIN_SIZE c - 1))
        \<and> 0 \<le> prefix - prefix mod BIN_SIZE c
        \<and> prefix - prefix mod BIN_SIZE c \<le> prefix
        \<and> prefix \<le> prefix - prefix mod BIN_SIZE c + BIN_SIZE c - 1"
  proof (cases "list_ex is_surrogate path")
    case True
    then obtain cp where "cp \<in> set path" "is_surrogate cp"
      by (auto simp: list_ex_iff)
    then have "encode_utf8 path = Inl UnicodeEncodeError"
      by (rule encode_utf8_surrogate)
    then show ?thesis
      using True by (simp add: find_hash_bin_def)
  next
    case False
    then have "list_all (\<lambda>cp. \<not> is_surrogate cp) path"
      by (simp add: list_ex_iff list_all_iff)
    then obtain data where enc: "encode_utf8 path = Inr data"
      using encode_utf8_ok by blast
    from enc sel(2,3,1) obtain prefix where
      pi: "py_int16 (take (PREFIX_LEN c) (sha256_hexdigest data)) = Inr prefix"
      and p: "0 \<le> prefix" "prefix < NUMBER_OF_PREFIXES c"
      and f: "find_hash_bin c path =
        Inr (bin_name c (prefix - prefix mod BIN_SIZE c)
               (prefix - prefix mod BIN_SIZE c + BIN_SIZE c - 1))"
      by (rule find_hash_bin_prefix)
    have m: "0 \<le> prefix mod BIN_SIZE c" "prefix mod BIN_SIZE c < BIN_SIZE c"
      using sel(1) by simp_all
    have "prefix mod BIN_SIZE c \<le> prefix"
      using p(1) sel(1) by (simp add: zmod_le_nonneg_dividend)
    then have r: "0 \<le> prefix - prefix mod BIN_SIZE c"
        "prefix - prefix mod BIN_SIZE c \<le> prefix"
        "prefix \<le> prefix - prefix mod BIN_SIZE c + BIN_SIZE c - 1"
      using m by simp_all
    have "length (sha256_hexdigest data) = 64"
      by (rule sha256_hexdigest_props)
    with enc pi p f r show ?thesis
      using False by auto
  qed
  from c1 sel(1) c3 show ?thesis
    by (intro exI [of _ c] conjI)
qed

text \<open>The theorem at 32 bins and the empty path.\<close>

theorem find_hash_bin_total_empty_path:
  "1 \<le> (32::int) \<and> (\<exists>c. load_constants 32 = Inr c \<and> 0 < BIN_SIZE c \<and>
     (if list_ex is_surrogate [] then find_hash_bin c [] = Inl UnicodeEncodeError
      else \<exists>data prefix.
          encode_utf8 [] = Inr data
        \<and> length (sha256_hexdigest data) = 64
        \<and> py_int16 (take (PREFIX_LEN c) (sha256_hexdigest data)) = Inr prefix
        \<and> 0 \<le> prefix \<and> prefix < NUMBER_OF_PREFIXES c
        \<and> find_hash_bin c [] =
            Inr (bin_name c (prefix - prefix mod BIN_SIZE c)
                   (prefix - prefix mod BIN_SIZE c + BIN_SIZE c - 1))
        \<and> 0 \<le> prefix - prefix mod BIN_SIZE c
        \<and> prefix - prefix mod BIN_SIZE c \<le> prefix
        \<and> prefix \<le> prefix - prefix mod BIN_SIZE c + BIN_SIZE c - 1))"
proof -
  have h: "1 \<le> (32::int)" by simp
  show ?thesis
    by (rule conjI [OF h find_hash_bin_total [OF h]])
qed

text \<open>The claim as stated, for every string, fails on the string that consists of the
  surrogate \<open>U+D800\<close>.\<close>

theorem find_hash_bin_not_total:
  "load_constants 32 =
     Inr \<lparr>NUMBER_OF_BINS = 32, PREFIX_LEN = 2, NUMBER_OF_PREFIXES = 256, BIN_SIZE = 8\<rparr>
   \<and> find_hash_bin
        \<lparr>NUMBER_OF_BINS = 32, PREFIX_LEN = 2, NUMBER_OF_PREFIXES = 256, BIN_SIZE = 8\<rparr>
        [55296] = Inl UnicodeEncodeError"
  by (simp add: load_constants_32 find_hash_bin_def utf8_encode_char_def is_surrogate_def)

section \<open>The 32 bins of the example\<close>

lemma concat_intervals:
  fixes B :: int
  assumes "0 < B"
  shows "concat (map (\<lambda>i. map f [int i * B..int i * B + B - 1]) [0..<n]) =
     map f [0..int n * B - 1]"
proof (induction n)
  case 0
  then show ?case by simp
next
  case (Suc n)
  have "[0..int n * B + B - 1] = [0..int n * B - 1] @ [int n * B..int n * B + B - 1]"
  proof (cases n)
    case 0
    then show ?thesis by simp
  next
    case (Suc m)
    then have "0 < int n * B" using assms by simp
    then show ?thesis
      using assms upto_split2 [of 0 "int n * B - 1" "int n * B + B - 1"] by simp
  qed
  moreover have "int (Suc n) * B - 1 = int n * B + B - 1"
    by (simp add: algebra_simps)
  ultimately show ?case
    using Suc by simp
qed

lemma hash_bin_prefixes:
  "snd (hash_bin c low) = map (py_hex_pad (PREFIX_LEN c)) [low..low + BIN_SIZE c - 1]"
  by (simp add: hash_bin_def range_list_unit Let_def)

lemma bins_32:
  "generate_hash_bins
     \<lparr>NUMBER_OF_BINS = 32, PREFIX_LEN = 2, NUMBER_OF_PREFIXES = 256, BIN_SIZE = 8\<rparr> =
   Inr (map (hash_bin
         \<lparr>NUMBER_OF_BINS = 32, PREFIX_LEN = 2, NUMBER_OF_PREFIXES = 256, BIN_SIZE = 8\<rparr>)
       (map (\<lambda>i. int i * 8) [0..<32]))"
  using range_list_multiples [of 8 32]
  by (simp add: generate_hash_bins_def py_range_def)

lemma names_32:
  "map (\<lambda>i. fst (hash_bin
         \<lparr>NUMBER_OF_BINS = 32, PREFIX_LEN = 2, NUMBER_OF_PREFIXES = 256, BIN_SIZE = 8\<rparr>
         (int i * 8))) [0..<32] =
     [''00-07'', ''08-0f'', ''10-17'', ''18-1f'', ''20-27'', ''28-2f'',
       ''30-37'', ''38-3f'', ''40-47'', ''48-4f'', ''50-57'', ''58-5f'',
       ''60-67'', ''68-6f'', ''70-77'', ''78-7f'', ''80-87'', ''88-8f'',
       ''90-97'', ''98-9f'', ''a0-a7'', ''a8-af'', ''b0-b7'', ''b8-bf'',
       ''c0-c7'', ''c8-cf'', ''d0-d7'', ''d8-df'', ''e0-e7'', ''e8-ef'',
       ''f0-f7'', ''f8-ff'']"
  by (simp add: hash_bin_def bin_name_def py_hex_pad_def hex_nat.simps hex_digit_def Let_def
      upt_conv_Cons)

section \<open>The delegations of the role \<^verbatim>\<open>bins\<close>\<close>

text \<open>
  Claim C3. After the loop of lines 177--194 has run with the constants of 32 bins, the
  role \<^verbatim>\<open>bins\<close> is the first entry of \<^verbatim>\<open>roles\<close>, and the role mapping of its delegations
  has exactly 32 entries. Their names are the names of the generated bins in the order
  of generation, which is the ascending order of the prefix ranges, \<^verbatim>\<open>00-07\<close> to
  \<^verbatim>\<open>f8-ff\<close>. Every entry carries its own name, the key id of the key \<^verbatim>\<open>bin-n\<close>, the
  threshold 1, \<^verbatim>\<open>terminating = False\<close> and a non-empty list of 8 hash prefixes, the
  \<open>i\<close>-th entry those of the range \<open>[8 * i, 8 * i + 7]\<close>. One after the other, the 32
  lists are the 256 two-digit prefixes of 0 to 255 in ascending order, and these are
  pairwise distinct.
\<close>

theorem delegation_roles_32:
  "\<exists>bins parent d kids.
      load_constants 32 =
        Inr \<lparr>NUMBER_OF_BINS = 32, PREFIX_LEN = 2, NUMBER_OF_PREFIXES = 256, BIN_SIZE = 8\<rparr>
    \<and> generate_hash_bins
        \<lparr>NUMBER_OF_BINS = 32, PREFIX_LEN = 2, NUMBER_OF_PREFIXES = 256, BIN_SIZE = 8\<rparr>
        = Inr bins
    \<and> build_delegation ev
        \<lparr>NUMBER_OF_BINS = 32, PREFIX_LEN = 2, NUMBER_OF_PREFIXES = 256, BIN_SIZE = 8\<rparr>
        = Inr ((''bins'', parent) # kids)
    \<and> delegations (signed parent) = Some d
    \<and> length (roles d) = 32
    \<and> map fst (roles d) = map fst bins
    \<and> map fst (roles d) =
      [''00-07'', ''08-0f'', ''10-17'', ''18-1f'', ''20-27'', ''28-2f'',
       ''30-37'', ''38-3f'', ''40-47'', ''48-4f'', ''50-57'', ''58-5f'',
       ''60-67'', ''68-6f'', ''70-77'', ''78-7f'', ''80-87'', ''88-8f'',
       ''90-97'', ''98-9f'', ''a0-a7'', ''a8-af'', ''b0-b7'', ''b8-bf'',
       ''c0-c7'', ''c8-cf'', ''d0-d7'', ''d8-df'', ''e0-e7'', ''e8-ef'',
       ''f0-f7'', ''f8-ff'']
    \<and> list_all (\<lambda>(nm, r). name r = nm \<and> keyids r = [keyid (key_bin_n ev)]
          \<and> threshold r = 1 \<and> terminating r = False
          \<and> path_hash_prefixes r \<noteq> [] \<and> length (path_hash_prefixes r) = 8) (roles d)
    \<and> map (\<lambda>(nm, r). path_hash_prefixes r) (roles d) =
        map (\<lambda>i. map (py_hex_pad 2) [int i * 8..int i * 8 + 7]) [0..<32]
    \<and> concat (map (\<lambda>(nm, r). path_hash_prefixes r) (roles d)) = map (py_hex_pad 2) [0..255]
    \<and> distinct (map (py_hex_pad 2) [0..255])
    \<and> length (map (py_hex_pad 2) [0..255]) = 256"
proof -
  define c where
    "c = \<lparr>NUMBER_OF_BINS = 32, PREFIX_LEN = 2, NUMBER_OF_PREFIXES = 256, BIN_SIZE = 8\<rparr>"
  define bins where "bins = map (hash_bin c) (map (\<lambda>i. int i * 8) [0..<32])"
  define rs where "rs = map (\<lambda>(nm, hs). (nm, \<lparr>name = nm, keyids = [keyid (key_bin_n ev)],
      threshold = 1, terminating = False, path_hash_prefixes = hs\<rparr>)) bins"
  define d where "d = \<lparr>keys = [(keyid (key_bin_n ev), from_securesystemslib_key (key_bin_n ev))],
      roles = rs\<rparr>"
  define parent where
    "parent = (bins_role ev)\<lparr>signed := (signed (bins_role ev))\<lparr>delegations := Some d\<rparr>\<rparr>"
  have sel: "0 < BIN_SIZE c" "1 \<le> PREFIX_LEN c" "NUMBER_OF_PREFIXES c = 16 ^ PREFIX_LEN c"
    "PREFIX_LEN c = 2" "BIN_SIZE c = 8"
    by (simp_all add: c_def)
  have g: "generate_hash_bins c = Inr bins"
    unfolding c_def bins_def by (rule bins_32)
  have b: "build_delegation ev c = Inr ((''bins'', parent) # map (\<lambda>b. (fst b, bin_n_role ev)) bins)"
    unfolding parent_def d_def rs_def by (rule build_delegation_result(1) [OF sel(1-3) g])
  have t1: "load_constants 32 = Inr c"
    unfolding c_def by (rule load_constants_32)
  have t4: "delegations (signed parent) = Some d"
    by (simp add: parent_def)
  have t5: "length (roles d) = 32"
    by (simp add: d_def rs_def bins_def)
  have t6: "map fst (roles d) = map fst bins"
    by (simp add: d_def rs_def case_prod_unfold)
  have "map fst bins = map (\<lambda>i. fst (hash_bin c (int i * 8))) [0..<32]"
    by (simp add: bins_def)
  then have t7: "map fst (roles d) =
      [''00-07'', ''08-0f'', ''10-17'', ''18-1f'', ''20-27'', ''28-2f'',
       ''30-37'', ''38-3f'', ''40-47'', ''48-4f'', ''50-57'', ''58-5f'',
       ''60-67'', ''68-6f'', ''70-77'', ''78-7f'', ''80-87'', ''88-8f'',
       ''90-97'', ''98-9f'', ''a0-a7'', ''a8-af'', ''b0-b7'', ''b8-bf'',
       ''c0-c7'', ''c8-cf'', ''d0-d7'', ''d8-df'', ''e0-e7'', ''e8-ef'',
       ''f0-f7'', ''f8-ff'']"
    unfolding t6 c_def by (simp only: names_32)
  have pre: "map (\<lambda>(nm, r). path_hash_prefixes r) (roles d) =
        map (\<lambda>i. map (py_hex_pad 2) [int i * 8..int i * 8 + 7]) [0..<32]"
    by (simp add: d_def rs_def bins_def case_prod_unfold hash_bin_prefixes sel add.commute)
  have t8: "list_all (\<lambda>(nm, r). name r = nm \<and> keyids r = [keyid (key_bin_n ev)]
          \<and> threshold r = 1 \<and> terminating r = False
          \<and> path_hash_prefixes r \<noteq> [] \<and> length (path_hash_prefixes r) = 8) (roles d)"
    unfolding list_all_iff
    by (auto simp: d_def rs_def bins_def case_prod_unfold hash_bin_prefixes sel)
  have t10: "concat (map (\<lambda>(nm, r). path_hash_prefixes r) (roles d)) = map (py_hex_pad 2) [0..255]"
    unfolding pre using concat_intervals [of 8 "py_hex_pad 2" 32] by (simp add: add.commute)
  have "inj_on (py_hex_pad 2) (set [0..255])"
    by (rule inj_onI) (auto intro: py_hex_pad_inj)
  then have t11: "distinct (map (py_hex_pad 2) [0..255])"
    by (simp add: distinct_map)
  have t12: "length (map (py_hex_pad 2) [0..255]) = 256"
    by simp
  show ?thesis
    unfolding c_def [symmetric]
    by (intro exI [of _ bins] exI [of _ parent] exI [of _ d]
        exI [of _ "map (\<lambda>b. (fst b, bin_n_role ev)) bins"] conjI
        t1 g b t4 t5 t6 t7 t8 pre t10 t11 t12)
qed

section \<open>The script as a whole\<close>

lemma map_of_const_values:
  "k \<in> set (map fst bs) \<Longrightarrow> map_of (map (\<lambda>b. (fst b, v)) bs) k = Some v"
  by (induction bs) auto

lemma update_list_all:
  "list_all P al \<Longrightarrow> P (k, v) \<Longrightarrow> list_all P (AList.update k v al)"
  by (induction al) auto

lemma map_of_present: "map_of al k = Some v \<Longrightarrow> k \<in> set (map fst al)"
  by (induction al) (auto split: if_splits)

lemma find_hash_bin_not_bins: "find_hash_bin c path = Inr bin \<Longrightarrow> bin \<noteq> ''bins''"
  by (auto simp: find_hash_bin_def Let_def bin_name_not_bins split: sum.splits)

lemma script_result:
  assumes "1 \<le> n" and "list_all (\<lambda>cp. \<not> is_surrogate cp) (target_path ev)"
  shows "\<exists>c bins rd1.
      load_constants n = Inr c \<and> generate_hash_bins c = Inr bins
    \<and> ''bins'' \<notin> set (map fst bins)
    \<and> hashed_bin_delegation ev n = Inr (sign_and_persist ev rd1)
    \<and> map fst rd1 = ''bins'' # map fst bins
    \<and> list_all (\<lambda>(nm, r). signatures r = []) rd1"
proof -
  from find_hash_bin_member [OF assms] obtain c bins bin where
    lc: "load_constants n = Inr c" and g: "generate_hash_bins c = Inr bins"
    and f: "find_hash_bin c (target_path ev) = Inr bin"
    and mem: "bin \<in> set (map fst bins)"
    and sel: "0 < BIN_SIZE c" "1 \<le> PREFIX_LEN c" "NUMBER_OF_PREFIXES c = 16 ^ PREFIX_LEN c"
    by blast
  define parent where "parent = (bins_role ev)\<lparr>signed := (signed (bins_role ev))\<lparr>delegations := Some
              \<lparr>keys = [(keyid (key_bin_n ev), from_securesystemslib_key (key_bin_n ev))],
               roles = map (\<lambda>(nm, hs). (nm, \<lparr>name = nm, keyids = [keyid (key_bin_n ev)],
                    threshold = 1, terminating = False, path_hash_prefixes = hs\<rparr>)) bins\<rparr>\<rparr>\<rparr>"
  define rd0 where "rd0 = (''bins'', parent) # map (\<lambda>b. (fst b, bin_n_role ev)) bins"
  have b: "build_delegation ev c = Inr rd0"
    unfolding rd0_def parent_def by (rule build_delegation_result(1) [OF sel g])
  have nb: "''bins'' \<notin> set (map fst bins)"
    by (rule build_delegation_result(3) [OF sel g])
  have bin_nb: "bin \<noteq> ''bins''"
  proof
    assume "bin = ''bins''"
    with mem nb show False by simp
  qed
  have look: "map_of rd0 bin = Some (bin_n_role ev)"
    using bin_nb mem by (simp add: rd0_def map_of_const_values)
  define role' where "role' = (bin_n_role ev)\<lparr>signed := (signed (bin_n_role ev))
      \<lparr>targets := AList.update (target_path ev) (target_file_info ev)
          (targets (signed (bin_n_role ev)))\<rparr>\<rparr>"
  define rd1 where "rd1 = AList.update bin role' rd0"
  have a: "add_target c rd0 (target_path ev) (target_file_info ev) = Inr rd1"
    by (simp add: add_target_def f look rd1_def role'_def)
  have run: "hashed_bin_delegation ev n = Inr (sign_and_persist ev rd1)"
    by (simp add: hashed_bin_delegation_def lc b a)
  have keys0: "map fst rd0 = ''bins'' # map fst bins"
    by (simp add: rd0_def o_def)
  have "bin \<in> set (map fst rd0)"
    using look by (rule map_of_present)
  then have keys1: "map fst rd1 = ''bins'' # map fst bins"
    by (simp add: rd1_def update_keys keys0)
  have "list_all (\<lambda>(nm, r). signatures r = []) rd0"
    by (simp add: rd0_def parent_def bins_role_def bin_n_role_def list_all_iff)
  moreover have "signatures role' = []"
    by (simp add: role'_def bin_n_role_def)
  ultimately have unsigned: "list_all (\<lambda>(nm, r). signatures r = []) rd1"
    unfolding rd1_def by (intro update_list_all) simp_all
  show ?thesis
    by (intro exI [of _ c] exI [of _ bins] exI [of _ rd1] conjI lc g nb run keys1 unsigned)
qed

lemma sample_path: "target_path sample_env = str_of ''repo_example/hashed_bin_delegation.py''"
  by (simp add: sample_env_def)

lemma sample_path_encodable: "list_all (\<lambda>cp. \<not> is_surrogate cp) (target_path sample_env)"
  by (simp add: sample_path str_of_def is_surrogate_def)

lemma example_bin:
  "find_hash_bin
     \<lparr>NUMBER_OF_BINS = 32, PREFIX_LEN = 2, NUMBER_OF_PREFIXES = 256, BIN_SIZE = 8\<rparr>
     (target_path sample_env) = Inr ''80-87''"
proof -
  have p: "py_int16 ''85'' = Inr 133"
    by (simp add: py_int16_def hex_value_def)
  have b: "bin_name
      \<lparr>NUMBER_OF_BINS = 32, PREFIX_LEN = 2, NUMBER_OF_PREFIXES = 256, BIN_SIZE = 8\<rparr>
      128 135 = ''80-87''"
    by (simp add: bin_name_def py_hex_pad_def hex_nat.simps hex_digit_def Let_def)
  show ?thesis
    by (simp add: sample_path find_hash_bin_def example_bytes example_digest p b py_mod_def
        Let_def)
qed

section \<open>Adding a target file\<close>

text \<open>
  Claim C8. When the statement of lines 213--214 succeeds, the bin that
  \<^verbatim>\<open>find_hash_bin\<close> names is not \<^verbatim>\<open>bins\<close> and has a document in \<^verbatim>\<open>roles\<close>; the keys of
  \<^verbatim>\<open>roles\<close> and their order are unchanged, the role \<^verbatim>\<open>bins\<close> and every role other than
  that bin are unchanged, and the document of the bin differs from what it was only in
  its targets: its signatures and delegations are as before, the path now maps to the
  new file info (replacing a record that was there for the same path, without a second
  entry), and every other path maps to what it did.
\<close>

theorem add_target_frame:
  assumes "add_target c rd path info = Inr rd'"
  shows "\<exists>bin role role'.
      find_hash_bin c path = Inr bin \<and> bin \<noteq> ''bins''
    \<and> map_of rd bin = Some role \<and> map_of rd' bin = Some role'
    \<and> map fst rd' = map fst rd
    \<and> map_of rd' ''bins'' = map_of rd ''bins''
    \<and> (\<forall>other. other \<noteq> bin \<longrightarrow> map_of rd' other = map_of rd other)
    \<and> role' = role\<lparr>signed := (signed role)
         \<lparr>targets := AList.update path info (targets (signed role))\<rparr>\<rparr>
    \<and> signatures role' = signatures role
    \<and> delegations (signed role') = delegations (signed role)
    \<and> map_of (targets (signed role')) path = Some info
    \<and> (\<forall>other. other \<noteq> path \<longrightarrow>
          map_of (targets (signed role')) other = map_of (targets (signed role)) other)
    \<and> map fst (targets (signed role')) =
        (if path \<in> set (map fst (targets (signed role))) then map fst (targets (signed role))
         else map fst (targets (signed role)) @ [path])"
proof -
  from assms obtain bin role where
    f: "find_hash_bin c path = Inr bin" and r: "map_of rd bin = Some role"
    and rd': "rd' = AList.update bin (role\<lparr>signed := (signed role)
         \<lparr>targets := AList.update path info (targets (signed role))\<rparr>\<rparr>) rd"
    by (auto simp: add_target_def split: sum.splits option.splits)
  define role' where "role' = role\<lparr>signed := (signed role)
         \<lparr>targets := AList.update path info (targets (signed role))\<rparr>\<rparr>"
  have nb: "bin \<noteq> ''bins''"
    using f by (rule find_hash_bin_not_bins)
  have mo: "map_of rd' = (map_of rd)(bin \<mapsto> role')"
    by (simp add: rd' role'_def update_conv')
  have keys: "map fst rd' = map fst rd"
    using map_of_present [OF r] by (simp add: rd' update_keys)
  have t: "map_of (targets (signed role')) = (map_of (targets (signed role)))(path \<mapsto> info)"
    by (simp add: role'_def update_conv')
  show ?thesis
    by (rule exI [of _ bin], rule exI [of _ role], rule exI [of _ role'])
       (use f nb r keys in \<open>simp add: mo t\<close>, simp add: role'_def update_keys)
qed

text \<open>The theorem on a dictionary with the role \<^verbatim>\<open>bins\<close> and the role \<^verbatim>\<open>80-87\<close>, with 32
  bins and the target path of the example.\<close>

theorem add_target_frame_example:
  "add_target
     \<lparr>NUMBER_OF_BINS = 32, PREFIX_LEN = 2, NUMBER_OF_PREFIXES = 256, BIN_SIZE = 8\<rparr>
     [(''bins'', bins_role sample_env), (''80-87'', bin_n_role sample_env)]
     (target_path sample_env) (target_file_info sample_env) =
     Inr [(''bins'', bins_role sample_env),
         (''80-87'', (bin_n_role sample_env)\<lparr>signed := (signed (bin_n_role sample_env))
            \<lparr>targets := [(target_path sample_env, target_file_info sample_env)]\<rparr>\<rparr>)]
   \<and> map_of
        [(''bins'', bins_role sample_env),
         (''80-87'', (bin_n_role sample_env)\<lparr>signed := (signed (bin_n_role sample_env))
            \<lparr>targets := [(target_path sample_env, target_file_info sample_env)]\<rparr>\<rparr>)]
        ''bins'' =
       map_of [(''bins'', bins_role sample_env), (''80-87'', bin_n_role sample_env)] ''bins''
   \<and> map fst
        [(''bins'', bins_role sample_env),
         (''80-87'', (bin_n_role sample_env)\<lparr>signed := (signed (bin_n_role sample_env))
            \<lparr>targets := [(target_path sample_env, target_file_info sample_env)]\<rparr>\<rparr>)] =
       map fst [(''bins'', bins_role sample_env), (''80-87'', bin_n_role sample_env)]"
proof -
  have h: "add_target
     \<lparr>NUMBER_OF_BINS = 32, PREFIX_LEN = 2, NUMBER_OF_PREFIXES = 256, BIN_SIZE = 8\<rparr>
     [(''bins'', bins_role sample_env), (''80-87'', bin_n_role sample_env)]
     (target_path sample_env) (target_file_info sample_env) =
     Inr [(''bins'', bins_role sample_env),
         (''80-87'', (bin_n_role sample_env)\<lparr>signed := (signed (bin_n_role sample_env))
            \<lparr>targets := [(target_path sample_env, target_file_info sample_env)]\<rparr>\<rparr>)]"
    by (simp add: add_target_def example_bin bin_n_role_def)
  have k1: "map_of
        [(''bins'', bins_role sample_env),
         (''80-87'', (bin_n_role sample_env)\<lparr>signed := (signed (bin_n_role sample_env))
            \<lparr>targets := [(target_path sample_env, target_file_info sample_env)]\<rparr>\<rparr>)]
        ''bins'' =
       map_of [(''bins'', bins_role sample_env), (''80-87'', bin_n_role sample_env)] ''bins''"
    using add_target_frame [OF h] by (elim exE conjE)
  have k2: "map fst
        [(''bins'', bins_role sample_env),
         (''80-87'', (bin_n_role sample_env)\<lparr>signed := (signed (bin_n_role sample_env))
            \<lparr>targets := [(target_path sample_env, target_file_info sample_env)]\<rparr>\<rparr>)] =
       map fst [(''bins'', bins_role sample_env), (''80-87'', bin_n_role sample_env)]"
    using add_target_frame [OF h] by (elim exE conjE)
  from h k1 k2 show ?thesis
    by (intro conjI)
qed

section \<open>Signing\<close>

text \<open>
  Claim C5. For every bin count \<open>n \<ge> 1\<close> and every target path that UTF-8 can encode,
  the script runs to its end, and the roles it has signed are \<^verbatim>\<open>bins\<close> followed by the
  generated bins, none of which is named \<^verbatim>\<open>bins\<close>. Every one of these documents carries
  exactly one signature: that of the key \<^verbatim>\<open>bins\<close> on the role \<^verbatim>\<open>bins\<close>, that of the one
  key \<^verbatim>\<open>bin-n\<close> on every bin, in both cases over the signed part that the document has
  at the end. The files written are these documents, each as \<^verbatim>\<open><role_name>.json\<close>.
\<close>

theorem every_role_signed_once:
  assumes "1 \<le> n" and "list_all (\<lambda>cp. \<not> is_surrogate cp) (target_path ev)"
  shows "\<exists>c bins rd files.
      load_constants n = Inr c \<and> generate_hash_bins c = Inr bins
    \<and> hashed_bin_delegation ev n = Inr (rd, files)
    \<and> map fst rd = ''bins'' # map fst bins \<and> ''bins'' \<notin> set (map fst bins)
    \<and> list_all (\<lambda>(role_name, role).
          signatures role =
            [(keyid (if role_name = ''bins'' then key_bins ev else key_bin_n ev),
              \<lparr>sig_keyid = keyid (if role_name = ''bins'' then key_bins ev else key_bin_n ev),
               sig_signer = (if role_name = ''bins'' then key_bins ev else key_bin_n ev),
               sig_signed = signed role\<rparr>)]) rd
    \<and> files = map (\<lambda>(role_name, role). (role_name @ ''.json'', role)) rd"
proof -
  from script_result [OF assms] obtain c bins rd1 where
    lc: "load_constants n = Inr c" and g: "generate_hash_bins c = Inr bins"
    and nb: "''bins'' \<notin> set (map fst bins)"
    and run: "hashed_bin_delegation ev n = Inr (sign_and_persist ev rd1)"
    and keys1: "map fst rd1 = ''bins'' # map fst bins"
    and unsigned: "list_all (\<lambda>(nm, r). signatures r = []) rd1"
    by (elim exE conjE)
  define rd where "rd = map (\<lambda>(role_name, role). (role_name, sign_role ev role_name role)) rd1"
  define files where "files = map (\<lambda>(role_name, role). (role_name @ ''.json'', role)) rd"
  have sp: "sign_and_persist ev rd1 = (rd, files)"
    by (simp add: sign_and_persist_def rd_def files_def Let_def)
  have keys: "map fst rd = ''bins'' # map fst bins"
    using keys1 by (simp add: rd_def case_prod_unfold o_def)
  have sigs: "list_all (\<lambda>(role_name, role).
          signatures role =
            [(keyid (if role_name = ''bins'' then key_bins ev else key_bin_n ev),
              \<lparr>sig_keyid = keyid (if role_name = ''bins'' then key_bins ev else key_bin_n ev),
               sig_signer = (if role_name = ''bins'' then key_bins ev else key_bin_n ev),
               sig_signed = signed role\<rparr>)]) rd"
    using unsigned
    by (auto simp: rd_def list_all_iff sign_role_def sign_def)
  have run': "hashed_bin_delegation ev n = Inr (rd, files)"
    using run by (simp only: sp)
  show ?thesis
    by (intro exI [of _ c] exI [of _ bins] exI [of _ rd] exI [of _ files] conjI
        lc g run' keys nb sigs files_def)
qed

text \<open>The theorem for the example: 32 bins and the sample environment.\<close>

theorem every_role_signed_once_example:
  "1 \<le> (32::int)
   \<and> list_all (\<lambda>cp. \<not> is_surrogate cp) (target_path sample_env)
   \<and> (\<exists>c bins rd files.
      load_constants 32 = Inr c \<and> generate_hash_bins c = Inr bins
    \<and> hashed_bin_delegation sample_env 32 = Inr (rd, files)
    \<and> map fst rd = ''bins'' # map fst bins \<and> ''bins'' \<notin> set (map fst bins)
    \<and> list_all (\<lambda>(role_name, role).
          signatures role =
            [(keyid (if role_name = ''bins'' then key_bins sample_env else key_bin_n sample_env),
              \<lparr>sig_keyid = keyid (if role_name = ''bins'' then key_bins sample_env else key_bin_n sample_env),
               sig_signer = (if role_name = ''bins'' then key_bins sample_env else key_bin_n sample_env),
               sig_signed = signed role\<rparr>)]) rd
    \<and> files = map (\<lambda>(role_name, role). (role_name @ ''.json'', role)) rd)"
proof -
  have h: "1 \<le> (32::int)" by simp
  show ?thesis
    by (rule conjI [OF h conjI [OF sample_path_encodable
          every_role_signed_once [OF h sample_path_encodable]]])
qed

section \<open>Inserting into a signed document\<close>

text \<open>
  Claim C6, as amended. A signed document is not protected against mutation: whenever
  \<^verbatim>\<open>find_hash_bin\<close> names a role that has a document in \<^verbatim>\<open>roles\<close>, the statement of lines
  213--214 succeeds, whatever signatures that document carries. It puts the file info
  under the path into the targets of the document and leaves the signatures as they
  were.
\<close>

theorem add_target_on_signed_role:
  assumes "find_hash_bin c path = Inr bin" and "map_of rd bin = Some role"
  shows "\<exists>rd' role'.
      add_target c rd path info = Inr rd' \<and> map_of rd' bin = Some role'
    \<and> signatures role' = signatures role
    \<and> targets (signed role') = AList.update path info (targets (signed role))
    \<and> map_of (targets (signed role')) path = Some info"
  using assms by (simp add: add_target_def update_conv')

text \<open>The theorem on the role \<^verbatim>\<open>80-87\<close> after it has been signed as the loop of lines
  227--234 signs it.\<close>

theorem add_target_on_signed_role_example:
  "find_hash_bin
     \<lparr>NUMBER_OF_BINS = 32, PREFIX_LEN = 2, NUMBER_OF_PREFIXES = 256, BIN_SIZE = 8\<rparr>
     (target_path sample_env) = Inr ''80-87''
   \<and> map_of [(''80-87'', sign_role sample_env ''80-87'' (bin_n_role sample_env))] ''80-87'' =
       Some (sign_role sample_env ''80-87'' (bin_n_role sample_env))
   \<and> (\<exists>rd' role'.
      add_target
        \<lparr>NUMBER_OF_BINS = 32, PREFIX_LEN = 2, NUMBER_OF_PREFIXES = 256, BIN_SIZE = 8\<rparr>
        [(''80-87'', sign_role sample_env ''80-87'' (bin_n_role sample_env))]
        (target_path sample_env) (target_file_info sample_env) = Inr rd' \<and> map_of rd' ''80-87'' = Some role'
    \<and> signatures role' = signatures (sign_role sample_env ''80-87'' (bin_n_role sample_env))
    \<and> targets (signed role') = AList.update (target_path sample_env) (target_file_info sample_env)
          (targets (signed (sign_role sample_env ''80-87'' (bin_n_role sample_env))))
    \<and> map_of (targets (signed role')) (target_path sample_env) = Some (target_file_info sample_env))"
proof -
  have h: "map_of [(''80-87'', sign_role sample_env ''80-87'' (bin_n_role sample_env))] ''80-87'' =
       Some (sign_role sample_env ''80-87'' (bin_n_role sample_env))"
    by simp
  show ?thesis
    by (rule conjI [OF example_bin conjI [OF h add_target_on_signed_role [OF example_bin h]]])
qed

text \<open>The claim as stated fails. The role \<^verbatim>\<open>80-87\<close> is signed with the key \<^verbatim>\<open>bin-n\<close> while
  it has no targets; the insertion of lines 213--214 then returns normally, the document
  has the new target, and its one signature is still the signature over the signed part
  without targets.\<close>

theorem signed_role_is_mutated:
  "add_target
     \<lparr>NUMBER_OF_BINS = 32, PREFIX_LEN = 2, NUMBER_OF_PREFIXES = 256, BIN_SIZE = 8\<rparr>
     [(''80-87'', sign_role sample_env ''80-87'' (bin_n_role sample_env))]
     (target_path sample_env) (target_file_info sample_env) =
   Inr [(''80-87'',
         \<lparr>signed = (signed (bin_n_role sample_env))
            \<lparr>targets := [(target_path sample_env, target_file_info sample_env)]\<rparr>,
          signatures =
            [(keyid (key_bin_n sample_env),
              \<lparr>sig_keyid = keyid (key_bin_n sample_env), sig_signer = key_bin_n sample_env,
               sig_signed = signed (bin_n_role sample_env)\<rparr>)]\<rparr>)]
   \<and> targets (signed (bin_n_role sample_env)) = []"
  by (simp add: add_target_def example_bin sign_role_def sign_def bin_n_role_def)


section \<open>The bin count is not checked\<close>

lemma load_constants_neg:
  assumes "n < 0"
  obtains L where "load_constants n =
      Inr \<lparr>NUMBER_OF_BINS = n, PREFIX_LEN = L, NUMBER_OF_PREFIXES = 16 ^ L,
           BIN_SIZE = 16 ^ L div n\<rparr>"
    and "1 \<le> L" and "(16::int) ^ L div n < 0"
proof -
  define L where "L = length (py_hex (n - 1))"
  have L1: "1 \<le> L"
    using assms by (simp add: L_def py_hex_def)
  have neg: "(16::int) ^ L div n < 0"
    using assms by (simp add: neg_imp_zdiv_neg_iff)
  have lc: "load_constants n =
      Inr \<lparr>NUMBER_OF_BINS = n, PREFIX_LEN = L, NUMBER_OF_PREFIXES = 16 ^ L,
           BIN_SIZE = 16 ^ L div n\<rparr>"
    using assms by (simp add: load_constants_def L_def [symmetric] py_floordiv_def Let_def)
  from lc L1 neg show ?thesis
    by (rule that)
qed

lemma find_hash_bin_surrogate:
  assumes "list_ex is_surrogate path"
  shows "find_hash_bin c path = Inl UnicodeEncodeError"
proof -
  from assms obtain cp where "cp \<in> set path" "is_surrogate cp"
    by (auto simp: list_ex_iff)
  then have "encode_utf8 path = Inl UnicodeEncodeError"
    by (rule encode_utf8_surrogate)
  then show ?thesis
    by (simp add: find_hash_bin_def)
qed

lemma find_hash_bin_returns:
  assumes "\<not> list_ex is_surrogate path" and "1 \<le> PREFIX_LEN c" and "BIN_SIZE c \<noteq> 0"
  shows "\<exists>bin. find_hash_bin c path = Inr bin"
proof -
  from assms(1) have "list_all (\<lambda>cp. \<not> is_surrogate cp) path"
    by (simp add: list_ex_iff list_all_iff)
  then obtain data where enc: "encode_utf8 path = Inr data"
    using encode_utf8_ok by blast
  define s where "s = take (PREFIX_LEN c) (sha256_hexdigest data)"
  have "length s = min 64 (PREFIX_LEN c)"
    by (simp add: s_def sha256_hexdigest_props)
  then have ne: "s \<noteq> []"
    using assms(2) by auto
  have "set s \<subseteq> set (sha256_hexdigest data)"
    unfolding s_def by (rule set_take_subset)
  then have "set s \<subseteq> range hex_digit"
    using sha256_hexdigest_props(2) by (rule subset_trans)
  then have "\<exists>v. int_digits 0 s = Inr v \<and> v < (0 + 1) * 16 ^ length s"
    by (rule int_digits_bound)
  then obtain v where v: "int_digits 0 s = Inr v"
    by (elim exE conjE)
  have p: "py_int16 s = Inr (int v)"
    using ne v by (simp add: py_int16_def)
  show ?thesis
    using assms(3) p by (simp add: find_hash_bin_def enc s_def [symmetric] py_mod_def Let_def)
qed

lemma script_negative:
  assumes "n < 0"
  shows "\<exists>c. load_constants n = Inr c \<and> generate_hash_bins c = Inr []
    \<and> build_delegation ev c = Inr [(''bins'', bins_role ev)]
    \<and> hashed_bin_delegation ev n =
        Inl (if list_ex is_surrogate (target_path ev) then UnicodeEncodeError else KeyError)"
proof -
  from assms obtain L where
    lc: "load_constants n =
      Inr \<lparr>NUMBER_OF_BINS = n, PREFIX_LEN = L, NUMBER_OF_PREFIXES = 16 ^ L,
           BIN_SIZE = 16 ^ L div n\<rparr>"
    and L1: "1 \<le> L" and Bneg: "(16::int) ^ L div n < 0"
    by (rule load_constants_neg)
  define c where "c = \<lparr>NUMBER_OF_BINS = n, PREFIX_LEN = L, NUMBER_OF_PREFIXES = 16 ^ L,
           BIN_SIZE = 16 ^ L div n\<rparr>"
  have sel: "BIN_SIZE c < 0" "1 \<le> PREFIX_LEN c" "0 < NUMBER_OF_PREFIXES c"
    using L1 Bneg by (simp_all add: c_def)
  have c1: "load_constants n = Inr c"
    using lc by (simp add: c_def)
  have g: "generate_hash_bins c = Inr []"
    using sel(1,3) by (simp add: generate_hash_bins_def py_range_def range_list_def range_len_def)
  have b: "build_delegation ev c = Inr [(''bins'', bins_role ev)]"
    by (simp add: build_delegation_def g)
  have a: "add_target c [(''bins'', bins_role ev)] (target_path ev) (target_file_info ev) =
      Inl (if list_ex is_surrogate (target_path ev) then UnicodeEncodeError else KeyError)"
  proof (cases "list_ex is_surrogate (target_path ev)")
    case True
    then show ?thesis
      by (simp add: add_target_def find_hash_bin_surrogate)
  next
    case False
    from sel(1) have "BIN_SIZE c \<noteq> 0"
      by simp
    with False sel(2) have "\<exists>bin. find_hash_bin c (target_path ev) = Inr bin"
      by (rule find_hash_bin_returns)
    then obtain bin where f: "find_hash_bin c (target_path ev) = Inr bin"
      by (elim exE)
    then have "bin \<noteq> ''bins''"
      by (rule find_hash_bin_not_bins)
    then show ?thesis
      using False by (simp add: add_target_def f)
  qed
  have run: "hashed_bin_delegation ev n =
        Inl (if list_ex is_surrogate (target_path ev) then UnicodeEncodeError else KeyError)"
    by (simp add: hashed_bin_delegation_def c1 b a)
  show ?thesis
    by (intro exI [of _ c] conjI c1 g b run)
qed

lemma script_positive:
  assumes "1 \<le> n"
  shows "\<exists>c bins rd. load_constants n = Inr c \<and> generate_hash_bins c = Inr bins
    \<and> bins \<noteq> [] \<and> build_delegation ev c = Inr rd \<and> map fst rd = ''bins'' # map fst bins
    \<and> (if list_ex is_surrogate (target_path ev)
       then hashed_bin_delegation ev n = Inl UnicodeEncodeError
       else \<exists>rd' files. hashed_bin_delegation ev n = Inr (rd', files)
          \<and> map fst rd' = ''bins'' # map fst bins
          \<and> map fst files = map (\<lambda>role_name. role_name @ ''.json'') (''bins'' # map fst bins))"
proof -
  from assms obtain L where
    lc: "load_constants n =
      Inr \<lparr>NUMBER_OF_BINS = n, PREFIX_LEN = L, NUMBER_OF_PREFIXES = 16 ^ L,
           BIN_SIZE = 16 ^ L div n\<rparr>"
    and L1: "1 \<le> L" and Bpos: "0 < (16::int) ^ L div n"
    by (rule load_constants_pos)
  define c where "c = \<lparr>NUMBER_OF_BINS = n, PREFIX_LEN = L, NUMBER_OF_PREFIXES = 16 ^ L,
           BIN_SIZE = 16 ^ L div n\<rparr>"
  have sel: "0 < BIN_SIZE c" "1 \<le> PREFIX_LEN c" "NUMBER_OF_PREFIXES c = 16 ^ PREFIX_LEN c"
    using L1 Bpos by (simp_all add: c_def)
  have c1: "load_constants n = Inr c"
    using lc by (simp add: c_def)
  define bins where "bins = map (hash_bin c) (range_list 0 (NUMBER_OF_PREFIXES c) (BIN_SIZE c))"
  have g: "generate_hash_bins c = Inr bins"
    unfolding bins_def using sel by (rule generated_names(1))
  have "0 < range_len 0 (NUMBER_OF_PREFIXES c) (BIN_SIZE c)"
    using sel(1) by (simp add: range_len_def sel(3) pos_imp_zdiv_nonneg_iff)
  then have ne: "bins \<noteq> []"
    by (simp add: bins_def range_list_def)
  define parent where "parent = (bins_role ev)\<lparr>signed := (signed (bins_role ev))\<lparr>delegations := Some
              \<lparr>keys = [(keyid (key_bin_n ev), from_securesystemslib_key (key_bin_n ev))],
               roles = map (\<lambda>(nm, hs). (nm, \<lparr>name = nm, keyids = [keyid (key_bin_n ev)],
                    threshold = 1, terminating = False, path_hash_prefixes = hs\<rparr>)) bins\<rparr>\<rparr>\<rparr>"
  define rd where "rd = (''bins'', parent) # map (\<lambda>b. (fst b, bin_n_role ev)) bins"
  have b: "build_delegation ev c = Inr rd"
    unfolding rd_def parent_def by (rule build_delegation_result(1) [OF sel g])
  have keys: "map fst rd = ''bins'' # map fst bins"
    by (simp add: rd_def o_def)
  have run: "if list_ex is_surrogate (target_path ev)
       then hashed_bin_delegation ev n = Inl UnicodeEncodeError
       else \<exists>rd' files. hashed_bin_delegation ev n = Inr (rd', files)
          \<and> map fst rd' = ''bins'' # map fst bins
          \<and> map fst files = map (\<lambda>role_name. role_name @ ''.json'') (''bins'' # map fst bins)"
  proof (cases "list_ex is_surrogate (target_path ev)")
    case True
    then show ?thesis
      by (simp add: hashed_bin_delegation_def c1 b add_target_def find_hash_bin_surrogate)
  next
    case False
    then have enc: "list_all (\<lambda>cp. \<not> is_surrogate cp) (target_path ev)"
      by (simp add: list_ex_iff list_all_iff)
    from script_result [OF assms enc] obtain c' bins' rd1 where
      lc': "load_constants n = Inr c'" and g': "generate_hash_bins c' = Inr bins'"
      and r: "hashed_bin_delegation ev n = Inr (sign_and_persist ev rd1)"
      and k: "map fst rd1 = ''bins'' # map fst bins'"
      by (elim exE conjE)
    have "c' = c"
      using lc' c1 by simp
    with g' g have "bins' = bins"
      by simp
    with k have k1: "map fst rd1 = ''bins'' # map fst bins"
      by simp
    define rd' where "rd' = map (\<lambda>(role_name, role). (role_name, sign_role ev role_name role)) rd1"
    define files where "files = map (\<lambda>(role_name, role). (role_name @ ''.json'', role)) rd'"
    have sp: "sign_and_persist ev rd1 = (rd', files)"
      by (simp add: sign_and_persist_def rd'_def files_def Let_def)
    have r': "hashed_bin_delegation ev n = Inr (rd', files)"
      using r by (simp only: sp)
    have k2: "map fst rd' = ''bins'' # map fst bins"
      using k1 by (simp add: rd'_def case_prod_unfold o_def)
    have "map fst files = map (\<lambda>role_name. role_name @ ''.json'') (map fst rd')"
      by (simp add: files_def case_prod_unfold o_def)
    then have k3: "map fst files = map (\<lambda>role_name. role_name @ ''.json'') (''bins'' # map fst bins)"
      by (simp only: k2)
    have "\<exists>rd' files. hashed_bin_delegation ev n = Inr (rd', files)
          \<and> map fst rd' = ''bins'' # map fst bins
          \<and> map fst files = map (\<lambda>role_name. role_name @ ''.json'') (''bins'' # map fst bins)"
      by (intro exI [of _ rd'] exI [of _ files] conjI r' k2 k3)
    with False show ?thesis
      by simp
  qed
  show ?thesis
    by (intro exI [of _ c] exI [of _ bins] exI [of _ rd] conjI c1 g ne b keys run)
qed


text \<open>
  Claim C4, as amended. The example has no check of the bin count and no
  \<^verbatim>\<open>InvalidConfiguration\<close>. Deriving the constants fails for the bin count 0 only, with the
  \<^verbatim>\<open>ZeroDivisionError\<close> of the division of line 82, which is raised before any document is
  constructed. For every other bin count the constants are derived and the loop of lines
  177--194 runs to its end, leaving the role \<^verbatim>\<open>bins\<close> followed by one document for every
  generated bin. For a negative bin count no bin is generated, so that only the document
  \<^verbatim>\<open>bins\<close> exists, and the script stops at lines 213--214: with the \<^verbatim>\<open>KeyError\<close> of the
  lookup of the bin of the target, or with the \<^verbatim>\<open>UnicodeEncodeError\<close> of line 119 when
  the target path has a surrogate. For every bin count \<open>n \<ge> 1\<close>, a power of two or not, at
  least one bin is generated, and the script stops only for a target path with a
  surrogate; for every other path it runs to its end, where \<^verbatim>\<open>roles\<close> holds \<^verbatim>\<open>bins\<close> and
  the generated bins, and one file \<^verbatim>\<open><role_name>.json\<close> is written for each.
\<close>

theorem bin_count_not_validated:
  "(load_constants n = Inl e) = (n = 0 \<and> e = ZeroDivisionError)
   \<and> (\<exists>c. load_constants n = Inr c) = (n \<noteq> 0)
   \<and> (if n = 0 then hashed_bin_delegation ev n = Inl ZeroDivisionError
      else \<exists>c bins rd.
          load_constants n = Inr c \<and> generate_hash_bins c = Inr bins
        \<and> build_delegation ev c = Inr rd \<and> map fst rd = ''bins'' # map fst bins
        \<and> (bins = []) = (n < 0)
        \<and> (if list_ex is_surrogate (target_path ev)
           then hashed_bin_delegation ev n = Inl UnicodeEncodeError
           else if n < 0 then hashed_bin_delegation ev n = Inl KeyError
           else \<exists>rd' files. hashed_bin_delegation ev n = Inr (rd', files)
              \<and> map fst rd' = ''bins'' # map fst bins
              \<and> map fst files =
                  map (\<lambda>role_name. role_name @ ''.json'') (''bins'' # map fst bins)))"
proof -
  have c1: "(load_constants n = Inl e) = (n = 0 \<and> e = ZeroDivisionError)"
    by (auto simp: load_constants_def py_floordiv_def Let_def)
  have c2: "(\<exists>c. load_constants n = Inr c) = (n \<noteq> 0)"
    by (auto simp: load_constants_def py_floordiv_def Let_def)
  have c3: "if n = 0 then hashed_bin_delegation ev n = Inl ZeroDivisionError
      else \<exists>c bins rd.
          load_constants n = Inr c \<and> generate_hash_bins c = Inr bins
        \<and> build_delegation ev c = Inr rd \<and> map fst rd = ''bins'' # map fst bins
        \<and> (bins = []) = (n < 0)
        \<and> (if list_ex is_surrogate (target_path ev)
           then hashed_bin_delegation ev n = Inl UnicodeEncodeError
           else if n < 0 then hashed_bin_delegation ev n = Inl KeyError
           else \<exists>rd' files. hashed_bin_delegation ev n = Inr (rd', files)
              \<and> map fst rd' = ''bins'' # map fst bins
              \<and> map fst files =
                  map (\<lambda>role_name. role_name @ ''.json'') (''bins'' # map fst bins))"
  proof -
    consider "n = 0" | "n < 0" | "1 \<le> n"
      by linarith
    then show ?thesis
    proof cases
      case 1
      then show ?thesis
        by (simp add: load_constants_def py_floordiv_def hashed_bin_delegation_def Let_def)
    next
      case 2
      from script_negative [OF 2, of ev] obtain c where
        lc: "load_constants n = Inr c" and g: "generate_hash_bins c = Inr []"
        and b: "build_delegation ev c = Inr [(''bins'', bins_role ev)]"
        and run: "hashed_bin_delegation ev n =
          Inl (if list_ex is_surrogate (target_path ev) then UnicodeEncodeError else KeyError)"
        by (elim exE conjE)
      have keys: "map fst [(''bins'', bins_role ev)] = ''bins'' # map fst ([] :: (string \<times> string list) list)"
        by simp
      have e: "([] = ([] :: (string \<times> string list) list)) = (n < 0)"
        using 2 by simp
      have r: "if list_ex is_surrogate (target_path ev)
           then hashed_bin_delegation ev n = Inl UnicodeEncodeError
           else if n < 0 then hashed_bin_delegation ev n = Inl KeyError
           else \<exists>rd' files. hashed_bin_delegation ev n = Inr (rd', files)
              \<and> map fst rd' = ''bins'' # map fst ([] :: (string \<times> string list) list)
              \<and> map fst files =
                  map (\<lambda>role_name. role_name @ ''.json'')
                    (''bins'' # map fst ([] :: (string \<times> string list) list))"
        using 2 run by simp
      have "\<exists>c bins rd.
          load_constants n = Inr c \<and> generate_hash_bins c = Inr bins
        \<and> build_delegation ev c = Inr rd \<and> map fst rd = ''bins'' # map fst bins
        \<and> (bins = []) = (n < 0)
        \<and> (if list_ex is_surrogate (target_path ev)
           then hashed_bin_delegation ev n = Inl UnicodeEncodeError
           else if n < 0 then hashed_bin_delegation ev n = Inl KeyError
           else \<exists>rd' files. hashed_bin_delegation ev n = Inr (rd', files)
              \<and> map fst rd' = ''bins'' # map fst bins
              \<and> map fst files =
                  map (\<lambda>role_name. role_name @ ''.json'') (''bins'' # map fst bins))"
        by (intro exI [of _ c] exI [of _ "[]"] exI [of _ "[(''bins'', bins_role ev)]"] conjI
            lc g b keys e r)
      with 2 show ?thesis
        by simp
    next
      case 3
      from script_positive [OF 3, of ev] obtain c bins rd where
        lc: "load_constants n = Inr c" and g: "generate_hash_bins c = Inr bins"
        and ne: "bins \<noteq> []"
        and b: "build_delegation ev c = Inr rd" and keys: "map fst rd = ''bins'' # map fst bins"
        and run: "if list_ex is_surrogate (target_path ev)
           then hashed_bin_delegation ev n = Inl UnicodeEncodeError
           else \<exists>rd' files. hashed_bin_delegation ev n = Inr (rd', files)
              \<and> map fst rd' = ''bins'' # map fst bins
              \<and> map fst files =
                  map (\<lambda>role_name. role_name @ ''.json'') (''bins'' # map fst bins)"
        by (elim exE conjE)
      have e: "(bins = []) = (n < 0)"
        using 3 ne by simp
      have r: "if list_ex is_surrogate (target_path ev)
           then hashed_bin_delegation ev n = Inl UnicodeEncodeError
           else if n < 0 then hashed_bin_delegation ev n = Inl KeyError
           else \<exists>rd' files. hashed_bin_delegation ev n = Inr (rd', files)
              \<and> map fst rd' = ''bins'' # map fst bins
              \<and> map fst files =
                  map (\<lambda>role_name. role_name @ ''.json'') (''bins'' # map fst bins)"
      proof (cases "list_ex is_surrogate (target_path ev)")
        case True
        with run show ?thesis
          by (simp only: if_True)
      next
        case False
        have nn: "\<not> n < 0"
          using 3 by simp
        from run show ?thesis
          by (simp only: False nn if_False)
      qed
      have "\<exists>c bins rd.
          load_constants n = Inr c \<and> generate_hash_bins c = Inr bins
        \<and> build_delegation ev c = Inr rd \<and> map fst rd = ''bins'' # map fst bins
        \<and> (bins = []) = (n < 0)
        \<and> (if list_ex is_surrogate (target_path ev)
           then hashed_bin_delegation ev n = Inl UnicodeEncodeError
           else if n < 0 then hashed_bin_delegation ev n = Inl KeyError
           else \<exists>rd' files. hashed_bin_delegation ev n = Inr (rd', files)
              \<and> map fst rd' = ''bins'' # map fst bins
              \<and> map fst files =
                  map (\<lambda>role_name. role_name @ ''.json'') (''bins'' # map fst bins))"
        by (intro exI [of _ c] exI [of _ bins] exI [of _ rd] conjI lc g b keys e r)
      moreover have "n \<noteq> 0"
        using 3 by simp
      ultimately show ?thesis
        by (simp only: if_False)
    qed
  qed
  from c1 c2 c3 show ?thesis
    by (intro conjI)
qed

text \<open>The theorem at the bin count \<open>-1\<close> and the sample environment: the constants are
  derived, with the bin size \<open>-256\<close>; no bin is generated and only the role \<^verbatim>\<open>bins\<close> is
  built; the bin of the target is \<^verbatim>\<open>100--1\<close>, which \<^verbatim>\<open>roles\<close> does not have, and the script
  ends with a \<^verbatim>\<open>KeyError\<close>.\<close>

theorem bin_count_minus_one:
  "load_constants (- 1) =
     Inr \<lparr>NUMBER_OF_BINS = - 1, PREFIX_LEN = 2, NUMBER_OF_PREFIXES = 256, BIN_SIZE = - 256\<rparr>
   \<and> generate_hash_bins
       \<lparr>NUMBER_OF_BINS = - 1, PREFIX_LEN = 2, NUMBER_OF_PREFIXES = 256, BIN_SIZE = - 256\<rparr>
       = Inr []
   \<and> map_sum id (map fst) (build_delegation sample_env
       \<lparr>NUMBER_OF_BINS = - 1, PREFIX_LEN = 2, NUMBER_OF_PREFIXES = 256, BIN_SIZE = - 256\<rparr>)
       = Inr [''bins'']
   \<and> find_hash_bin
       \<lparr>NUMBER_OF_BINS = - 1, PREFIX_LEN = 2, NUMBER_OF_PREFIXES = 256, BIN_SIZE = - 256\<rparr>
       (target_path sample_env) = Inr ''100--1''
   \<and> hashed_bin_delegation sample_env (- 1) = Inl KeyError"
proof -
  let ?c = "\<lparr>NUMBER_OF_BINS = - 1, PREFIX_LEN = 2, NUMBER_OF_PREFIXES = 256, BIN_SIZE = - 256\<rparr>"
  have lc: "load_constants (- 1) = Inr ?c"
    by (simp add: load_constants_def py_hex_def hex_nat_small py_floordiv_def)
  have enc: "\<not> list_ex is_surrogate (target_path sample_env)"
    by (simp add: sample_path str_of_def is_surrogate_def)
  have p: "py_int16 ''85'' = Inr 133"
    by (simp add: py_int16_def hex_value_def)
  have nm: "bin_name ?c 256 (- 1) = ''100--1''"
    by (simp add: bin_name_def py_hex_pad_def hex_nat.simps hex_digit_def Let_def)
  have f: "find_hash_bin ?c (target_path sample_env) = Inr ''100--1''"
    by (simp add: sample_path find_hash_bin_def example_bytes example_digest p nm py_mod_def
        Let_def)
  have "\<exists>c bins rd. load_constants (- 1) = Inr c \<and> generate_hash_bins c = Inr bins
      \<and> build_delegation sample_env c = Inr rd \<and> map fst rd = ''bins'' # map fst bins
      \<and> bins = [] \<and> hashed_bin_delegation sample_env (- 1) = Inl KeyError"
    using bin_count_not_validated [where n = "- 1" and ev = sample_env and e = ZeroDivisionError]
      enc
    by simp
  then obtain c bins rd where
    a: "load_constants (- 1) = Inr c" and g: "generate_hash_bins c = Inr bins"
    and b: "build_delegation sample_env c = Inr rd" and k: "map fst rd = ''bins'' # map fst bins"
    and bn: "bins = []"
    and r: "hashed_bin_delegation sample_env (- 1) = Inl KeyError"
    by (elim exE conjE)
  have c: "c = ?c"
    using a lc by simp
  have g': "generate_hash_bins ?c = Inr []"
    using g by (simp only: c bn)
  have b': "map_sum id (map fst) (build_delegation sample_env ?c) = Inr [''bins'']"
    using b k by (simp add: c bn)
  from lc g' b' f r show ?thesis
    by (intro conjI)
qed

text \<open>The claim as stated fails for the bin count 3, which is positive and not a power of
  two: the constants are derived (prefix length 1, 16 prefixes, bin size 5), four bins
  are generated, the last of which reaches beyond the prefix space, and the delegating
  role and four bin documents are built.\<close>

theorem three_bins_accepted:
  "load_constants 3 =
     Inr \<lparr>NUMBER_OF_BINS = 3, PREFIX_LEN = 1, NUMBER_OF_PREFIXES = 16, BIN_SIZE = 5\<rparr>
   \<and> hash_bin_ranges
        \<lparr>NUMBER_OF_BINS = 3, PREFIX_LEN = 1, NUMBER_OF_PREFIXES = 16, BIN_SIZE = 5\<rparr>
       = Inr [(0, 4), (5, 9), (10, 14), (15, 19)]
   \<and> map_sum id (map fst) (generate_hash_bins
        \<lparr>NUMBER_OF_BINS = 3, PREFIX_LEN = 1, NUMBER_OF_PREFIXES = 16, BIN_SIZE = 5\<rparr>)
       = Inr [''0-4'', ''5-9'', ''a-e'', ''f-13'']
   \<and> map_sum id (map fst) (build_delegation sample_env
        \<lparr>NUMBER_OF_BINS = 3, PREFIX_LEN = 1, NUMBER_OF_PREFIXES = 16, BIN_SIZE = 5\<rparr>)
       = Inr [''bins'', ''0-4'', ''5-9'', ''a-e'', ''f-13'']"
proof -
  let ?c = "\<lparr>NUMBER_OF_BINS = 3, PREFIX_LEN = 1, NUMBER_OF_PREFIXES = 16, BIN_SIZE = 5\<rparr>"
  have lows: "range_list 0 16 5 = [0, 5, 10, 15]"
    by (simp add: range_list_def range_len_def upt_conv_Cons)
  have lc: "load_constants 3 = Inr ?c"
    by (simp add: load_constants_def py_hex_def hex_nat_small py_floordiv_def)
  have rs: "hash_bin_ranges ?c = Inr [(0, 4), (5, 9), (10, 14), (15, 19)]"
    by (simp add: hash_bin_ranges_def py_range_def lows)
  have g: "generate_hash_bins ?c = Inr (map (hash_bin ?c) [0, 5, 10, 15])"
    by (simp add: generate_hash_bins_def py_range_def lows)
  have names: "map fst (map (hash_bin ?c) [0, 5, 10, 15]) = [''0-4'', ''5-9'', ''a-e'', ''f-13'']"
    by (simp add: hash_bin_def bin_name_def py_hex_pad_def hex_nat.simps hex_digit_def Let_def)
  have b: "map_sum id (map fst) (build_delegation sample_env ?c) =
      Inr (''bins'' # map fst (map (hash_bin ?c) [0, 5, 10, 15]))"
    by (subst build_delegation_result(1) [OF _ _ _ g]) (simp_all add: o_def)
  show ?thesis
    using lc rs g names b by simp
qed

end
